theory Spec2Isabelle
  imports Main
begin

section \<open>Errors and the rate-limit test\<close>

text \<open>
  A value thrown by the generation service or by the service module itself. The source
  reads three properties of it (\<open>status\<close>, \<open>code\<close>, \<open>message\<close>) and asks once whether it
  is an instance of \<open>Error\<close>. \<open>status\<close> and \<open>code\<close> are only ever compared with the number
  429 by strict equality, so any JavaScript value may sit there; \<open>message\<close> is, as on every
  \<open>Error\<close> object, either absent or a string.
\<close>

datatype js_prop = Undefined | Num int | Str string

record js_error =
  instanceof_Error :: bool
  status :: js_prop
  code :: js_prop
  message :: "string option"

text \<open>\<open>String.prototype.includes\<close>: does the pattern occur as a contiguous substring.\<close>

fun str_includes :: "string \<Rightarrow> string \<Rightarrow> bool" where
  "str_includes [] p = (p = [])"
| "str_includes (c # cs) p = (take (length p) (c # cs) = p \<or> str_includes cs p)"

text \<open>
  The test of \<open>retryOperation\<close> (lines 16 to 18):
  \<^verbatim>\<open>error.status === 429 || error.code === 429 ||
  (error.message && (error.message.includes('429') || error.message.includes('quota')))\<close>
  An empty message is falsy.
\<close>

definition isRateLimit :: "js_error \<Rightarrow> bool" where
  "isRateLimit error \<longleftrightarrow>
     status error = Num 429 \<or> code error = Num 429 \<or>
     (case message error of
        None \<Rightarrow> False
      | Some m \<Rightarrow> m \<noteq> [] \<and> (str_includes m ''429'' \<or> str_includes m ''quota''))"

section \<open>The retry wrapper\<close>

text \<open>
  An asynchronous operation is a state transformer on the part of the world it acts on,
  returning either the value it resolves with (\<open>Inr\<close>) or the value it rejects with
  (\<open>Inl\<close>). The state of the wrapper pairs that world with the list of the delays passed
  to \<open>wait\<close> so far, oldest first, in milliseconds. The retry count and the delay
  are integers, as at every call site. Console output is not modelled.
\<close>

type_synonym ('s, 'a) operation = "'s \<Rightarrow> (js_error + 'a) \<times> 's"

definition wait :: "int \<Rightarrow> 's \<times> int list \<Rightarrow> 's \<times> int list" where
  "wait ms st = (fst st, snd st @ [ms])"

function retryOperation ::
  "('s, 'a) operation \<Rightarrow> int \<Rightarrow> int \<Rightarrow> 's \<times> int list \<Rightarrow> (js_error + 'a) \<times> ('s \<times> int list)"
where
  "retryOperation operation retries baseDelay st =
     (case operation (fst st) of
        (Inr v, s') \<Rightarrow> (Inr v, (s', snd st))
      | (Inl error, s') \<Rightarrow>
          if retries > 0 \<and> isRateLimit error
          then retryOperation operation (retries - 1) (baseDelay * 2)
                 (wait baseDelay (s', snd st))
          else (Inl error, (s', snd st)))"
  by pat_completeness auto
termination
  by (relation "measure (\<lambda>(operation, retries, baseDelay, st). nat retries)") auto

text \<open>The default arguments \<open>retries = 3, baseDelay = 2000\<close>.\<close>

definition retryOperation_default ::
  "('s, 'a) operation \<Rightarrow> 's \<times> int list \<Rightarrow> (js_error + 'a) \<times> ('s \<times> int list)"
where
  "retryOperation_default operation = retryOperation operation 3 2000"

subsection \<open>Talking about the successive invocations of an operation\<close>

text \<open>
  \<open>op_state operation s n\<close> is the state the operation has left behind after \<open>n\<close>
  invocations from \<open>s\<close>, and \<open>outcome operation s n\<close> is what invocation number \<open>n\<close>
  (counted from 0) settles with.
\<close>

fun op_state :: "('s, 'a) operation \<Rightarrow> 's \<Rightarrow> nat \<Rightarrow> 's" where
  "op_state operation s 0 = s"
| "op_state operation s (Suc n) = op_state operation (snd (operation s)) n"

definition outcome :: "('s, 'a) operation \<Rightarrow> 's \<Rightarrow> nat \<Rightarrow> js_error + 'a" where
  "outcome operation s n = fst (operation (op_state operation s n))"

text \<open>The delays of the first \<open>k\<close> retries with base delay \<open>d\<close>: \<open>d, 2d, 4d, ...\<close>\<close>

definition backoff :: "int \<Rightarrow> nat \<Rightarrow> int list" where
  "backoff d k = map (\<lambda>n. d * 2 ^ n) [0..<k]"

text \<open>
  A test double that fails \<open>k\<close> times with the error \<open>e\<close> and succeeds with \<open>v\<close> from
  then on; its state is the number of invocations so far.
\<close>

definition fake_operation :: "nat \<Rightarrow> js_error \<Rightarrow> 'a \<Rightarrow> (nat, 'a) operation" where
  "fake_operation k e v n = (if n < k then Inl e else Inr v, Suc n)"

text \<open>An operation instrumented with a counter of its invocations.\<close>

definition counting :: "('s, 'a) operation \<Rightarrow> (nat \<times> 's, 'a) operation" where
  "counting operation cs =
     (case operation (snd cs) of (r, s') \<Rightarrow> (r, (Suc (fst cs), s')))"

definition rate_limit_error :: js_error where
  "rate_limit_error =
     \<lparr>instanceof_Error = True, status = Num 429, code = Undefined,
      message = Some ''Too Many Requests''\<rparr>"

definition quota_error :: js_error where
  "quota_error =
     \<lparr>instanceof_Error = True, status = Undefined, code = Undefined,
      message = Some ''You exceeded your current quota''\<rparr>"

definition safety_error :: js_error where
  "safety_error =
     \<lparr>instanceof_Error = True, status = Num 400, code = Undefined,
      message = Some ''Blocked by safety filter''\<rparr>"

section \<open>The generation service\<close>

text \<open>
  \<open>types.ts\<close>. A value received from the service or parsed from its text is a JSON value;
  \<open>JSON.parse(...) as ProjectPlan\<close> is a cast that checks nothing, so a \<open>ProjectPlan\<close> is
  whatever JSON value the text denotes. An object lists its properties in order, each key
  once. A number keeps its text. \<open>None\<close> of type \<open>js_value\<close> is \<open>undefined\<close>.
\<close>

datatype CategoryOption = FurnitureFlipping | RoomRefresh

datatype json =
  JNull | JBool bool | JNumber string | JString string
| JArray "json list" | JObject "(string \<times> json) list"

type_synonym js_value = "json option"

type_synonym ProjectPlan = json

datatype role = User | Model

record ChatMessage =
  role :: role
  "text" :: string

text \<open>
  The schemas of lines 29 to 88, without their description strings: a string, an array
  with its item schema and optional length bounds, an object with its properties and
  required keys.
\<close>

datatype schema =
  STRING
| ARRAY schema "nat option" "nat option"
| OBJECT "(string \<times> schema) list" "string list"

definition PLAN_SCHEMA :: schema where
  "PLAN_SCHEMA = OBJECT
     [(''styleSummary'', STRING),
      (''steps'', ARRAY STRING None None),
      (''costEstimate'', STRING),
      (''timeEstimate'', STRING),
      (''materials'', ARRAY STRING None None),
      (''tools'', ARRAY STRING None None),
      (''safety'', ARRAY STRING None None),
      (''itemDescription'', STRING)]
     [''styleSummary'', ''steps'', ''costEstimate'', ''timeEstimate'', ''materials'', ''tools'',
      ''safety'', ''itemDescription'']"

definition SURPRISE_SCHEMA :: schema where
  "SURPRISE_SCHEMA = OBJECT
     [(''itemDescription'', STRING), (''styles'', ARRAY STRING (Some 5) (Some 5))]
     [''itemDescription'', ''styles'']"

text \<open>
  A request to \<open>ai.models.generateContent\<close>: the model, the inline JPEG when there is one,
  the prompt and the configuration. A prompt is kept as the template it is built from
  together with the values interpolated into it; the fixed wording of the templates is
  not reproduced. The reference context of an image prompt is present exactly when
  \<open>referenceUrl\<close> is truthy.
\<close>

datatype prompt =
  PlanPrompt CategoryOption string
| FurniturePrompt string js_value string "string option"
| RoomPrompt string js_value string "string option"
| ReferencePrompt string CategoryOption js_value int
| ChatPrompt ProjectPlan string string

datatype config =
  PlanConfig schema
| ImageConfig
| SearchConfig
| ChatConfig

record request =
  model :: string
  inlineImage :: "string option"
  prompt :: prompt
  config :: config

text \<open>
  What the source reads of a response: \<open>response.text\<close>, the parts
  \<open>response.candidates?.[0]?.content?.parts\<close> and the grounding chunks
  \<open>response.candidates?.[0]?.groundingMetadata?.groundingChunks\<close>, each possibly
  undefined.
\<close>

record blob =
  data :: "string option"

record part =
  inlineData :: "blob option"

record web_source =
  uri :: "string option"

record chunk =
  web :: "web_source option"

record response =
  response_text :: "string option"
  parts :: "part list option"
  groundingChunks :: "chunk list option"

text \<open>
  The service is an opaque collaborator: any function from a request and its own hidden
  state to a response or a thrown error, and a new hidden state. The functions of the
  module run on the hidden state paired with the log of the requests sent so far, and,
  where they wait, on that pair paired with the delays waited.
\<close>

type_synonym 'w service = "request \<Rightarrow> 'w \<Rightarrow> (js_error + response) \<times> 'w"

type_synonym 'w client = "'w \<times> request list"

type_synonym 'w state = "'w client \<times> int list"

definition generateContent ::
  "'w service \<Rightarrow> request \<Rightarrow> 'w client \<Rightarrow> (js_error + response) \<times> 'w client"
where
  "generateContent svc req s =
     (case svc req (fst s) of (r, w') \<Rightarrow> (r, (w', snd s @ [req])))"

text \<open>A string or \<open>undefined\<close> in a condition: truthy when present and not empty.\<close>

fun truthy :: "string option \<Rightarrow> bool" where
  "truthy None = False"
| "truthy (Some t) = (t \<noteq> [])"

section \<open>Single image generation\<close>

text \<open>
  The loop of lines 334 to 338: the data of the first part that has inline data with a
  truthy \<open>data\<close>.
\<close>

fun first_inline_data :: "part list \<Rightarrow> string option" where
  "first_inline_data [] = None"
| "first_inline_data (p # ps) =
     (case inlineData p of
        None \<Rightarrow> first_inline_data ps
      | Some b \<Rightarrow> if truthy (data b) then data b else first_inline_data ps)"

definition image_request ::
  "string \<Rightarrow> CategoryOption \<Rightarrow> js_value \<Rightarrow> string \<Rightarrow> string option \<Rightarrow> request"
where
  "image_request style category description viewContext referenceUrl =
     (let refContext = (if truthy referenceUrl then referenceUrl else None) in
      \<lparr>model = ''gemini-2.5-flash-image'', inlineImage = None,
       prompt =
         (if category = FurnitureFlipping
          then FurniturePrompt style description viewContext refContext
          else RoomPrompt style description viewContext refContext),
       config = ImageConfig\<rparr>)"

text \<open>
  The operation wrapped at lines 269 to 348. Its \<open>catch\<close> rethrows exactly when
  \<^verbatim>\<open>error instanceof Error && (error as any).status === 429\<close> and returns \<open>null\<close> otherwise.
\<close>

definition generateSingleImage_attempt ::
  "'w service \<Rightarrow> string \<Rightarrow> CategoryOption \<Rightarrow> js_value \<Rightarrow> string \<Rightarrow> string option \<Rightarrow>
   ('w client, string option) operation"
where
  "generateSingleImage_attempt svc style category description viewContext referenceUrl s =
     (case generateContent svc
             (image_request style category description viewContext referenceUrl) s of
        (Inr response, s') \<Rightarrow>
          (case parts response of
             Some ps \<Rightarrow> (Inr (first_inline_data ps), s')
           | None \<Rightarrow> (Inr None, s'))
      | (Inl error, s') \<Rightarrow>
          if instanceof_Error error \<and> status error = Num 429 then (Inl error, s')
          else (Inr None, s'))"

definition generateSingleImage ::
  "'w service \<Rightarrow> string \<Rightarrow> CategoryOption \<Rightarrow> js_value \<Rightarrow> string \<Rightarrow> string option \<Rightarrow>
   'w state \<Rightarrow> (js_error + string option) \<times> 'w state"
where
  "generateSingleImage svc style category description viewContext referenceUrl =
     retryOperation_default
       (generateSingleImage_attempt svc style category description viewContext referenceUrl)"

section \<open>Reference lookup\<close>

definition reference_request ::
  "string \<Rightarrow> CategoryOption \<Rightarrow> js_value \<Rightarrow> int \<Rightarrow> request"
where
  "reference_request style category description count =
     \<lparr>model = ''gemini-2.5-flash'', inlineImage = None,
      prompt = ReferencePrompt style category description count, config = SearchConfig\<rparr>"

text \<open>The \<open>forEach\<close> of lines 428 to 432: the truthy \<open>chunk.web?.uri\<close>, in order.\<close>

fun chunk_uris :: "chunk list \<Rightarrow> string list" where
  "chunk_uris [] = []"
| "chunk_uris (c # cs) =
     (case web c of
        None \<Rightarrow> chunk_uris cs
      | Some w \<Rightarrow>
          (case uri w of
             None \<Rightarrow> chunk_uris cs
           | Some u \<Rightarrow> if u \<noteq> [] then u # chunk_uris cs else chunk_uris cs))"

text \<open>The \<open>while\<close> loop of lines 435 to 437.\<close>

function pad_urls :: "string list \<Rightarrow> int \<Rightarrow> string list" where
  "pad_urls urls count =
     (if int (length urls) < count then pad_urls (urls @ [[]]) count else urls)"
  by pat_completeness auto
termination
  by (relation "measure (\<lambda>(urls, count). nat (count - int (length urls)))") auto

text \<open>
  \<open>urls.slice(0, count)\<close>: a negative end counts from the end of the array.
\<close>

definition slice0 :: "'a list \<Rightarrow> int \<Rightarrow> 'a list" where
  "slice0 xs count =
     (if 0 \<le> count then take (nat count) xs else take (nat (int (length xs) + count)) xs)"

text \<open>
  \<open>Array(count).fill("")\<close>: the constructor throws a \<open>RangeError\<close> unless \<open>count\<close> is an
  array length, an integer from 0 to \<open>2^32 - 1\<close>.
\<close>

definition RangeError :: js_error where
  "RangeError =
     \<lparr>instanceof_Error = True, status = Undefined, code = Undefined,
      message = Some ''Invalid array length''\<rparr>"

definition Array_fill_empty :: "int \<Rightarrow> js_error + string list" where
  "Array_fill_empty count =
     (if count < 0 \<or> 4294967295 < count then Inl RangeError
      else Inr (replicate (nat count) []))"

text \<open>
  The operation wrapped at lines 410 to 443. Its \<open>catch\<close> catches everything the \<open>try\<close>
  throws; what the \<open>catch\<close> block itself throws leaves the operation.
\<close>

definition getRealWorldReferences_attempt ::
  "'w service \<Rightarrow> string \<Rightarrow> CategoryOption \<Rightarrow> js_value \<Rightarrow> int \<Rightarrow>
   ('w client, string list) operation"
where
  "getRealWorldReferences_attempt svc style category description count s =
     (case generateContent svc (reference_request style category description count) s of
        (Inr response, s') \<Rightarrow>
          (let urls = (case groundingChunks response of Some cs \<Rightarrow> chunk_uris cs | None \<Rightarrow> [])
           in (Inr (slice0 (pad_urls urls count) count), s'))
      | (Inl e, s') \<Rightarrow> (Array_fill_empty count, s'))"

definition getRealWorldReferences ::
  "'w service \<Rightarrow> string \<Rightarrow> CategoryOption \<Rightarrow> js_value \<Rightarrow> int \<Rightarrow>
   'w state \<Rightarrow> (js_error + string list) \<times> 'w state"
where
  "getRealWorldReferences svc style category description count =
     retryOperation_default (getRealWorldReferences_attempt svc style category description count)"

subsection \<open>What a lookup is expected to return\<close>

text \<open>
  The specification speaks of the URLs found in the grounding metadata, the usable ones.
  Stated on their own, without the loop of the source: a chunk carries a URL when it has
  a web source whose \<open>uri\<close> is a non-empty string, that string is its URL, and the URLs
  found in a list of chunks are the URLs of the chunks that carry one, in the order of the
  chunks. \<open>found_urls\<close> are the URLs found in the response to the lookup request, none
  when the response has no grounding chunks or the call fails.
\<close>

definition carries_url :: "chunk \<Rightarrow> bool" where
  "carries_url c \<longleftrightarrow> (case web c of None \<Rightarrow> False | Some w \<Rightarrow> truthy (uri w))"

definition url_of :: "chunk \<Rightarrow> string" where
  "url_of c =
     (case web c of
        None \<Rightarrow> []
      | Some w \<Rightarrow> (case uri w of None \<Rightarrow> [] | Some u \<Rightarrow> u))"

definition usable_urls :: "chunk list \<Rightarrow> string list" where
  "usable_urls cs = map url_of (filter carries_url cs)"

definition found_urls ::
  "'w service \<Rightarrow> string \<Rightarrow> CategoryOption \<Rightarrow> js_value \<Rightarrow> int \<Rightarrow> 'w \<Rightarrow> string list"
where
  "found_urls svc style category description count w =
     (case fst (svc (reference_request style category description count) w) of
        Inr response \<Rightarrow>
          (case groundingChunks response of Some cs \<Rightarrow> usable_urls cs | None \<Rightarrow> [])
      | Inl e \<Rightarrow> [])"

section \<open>Chat\<close>

fun join :: "string \<Rightarrow> string list \<Rightarrow> string" where
  "join sep [] = []"
| "join sep [x] = x"
| "join sep (x # y # ys) = x @ sep @ join sep (y # ys)"

definition historyText :: "ChatMessage list \<Rightarrow> string" where
  "historyText history =
     join [CHR 0x0A]
       (map (\<lambda>msg. (if role msg = User then ''User'' else ''Homey'') @ '': '' @ text msg) history)"

definition chat_fallback :: string where
  "chat_fallback =
     ''I'm having a little trouble connecting right now. Could you ask that again?''"

definition chat_request :: "ProjectPlan \<Rightarrow> ChatMessage list \<Rightarrow> string \<Rightarrow> request" where
  "chat_request plan history newMessage =
     \<lparr>model = ''gemini-2.5-flash'', inlineImage = None,
      prompt = ChatPrompt plan (historyText history) newMessage, config = ChatConfig\<rparr>"

text \<open>
  The operation wrapped at lines 526 to 564: \<^verbatim>\<open>response.text || "I'm having ..."\<close>; its
  \<open>catch\<close> logs and rethrows.
\<close>

definition sendProjectChat_attempt ::
  "'w service \<Rightarrow> ProjectPlan \<Rightarrow> ChatMessage list \<Rightarrow> string \<Rightarrow> ('w client, string) operation"
where
  "sendProjectChat_attempt svc plan history newMessage s =
     (case generateContent svc (chat_request plan history newMessage) s of
        (Inr response, s') \<Rightarrow>
          (case response_text response of
             Some t \<Rightarrow> (Inr (if t \<noteq> [] then t else chat_fallback), s')
           | None \<Rightarrow> (Inr chat_fallback, s'))
      | (Inl error, s') \<Rightarrow> (Inl error, s'))"

definition sendProjectChat ::
  "'w service \<Rightarrow> ProjectPlan \<Rightarrow> ChatMessage list \<Rightarrow> string \<Rightarrow>
   'w state \<Rightarrow> (js_error + string) \<times> 'w state"
where
  "sendProjectChat svc plan history newMessage =
     retryOperation_default (sendProjectChat_attempt svc plan history newMessage)"

section \<open>Batches of images\<close>

definition default_views :: "string list" where
  "default_views = [''straight on view'', ''slightly angled view'', ''detail focused view'']"

text \<open>
  \<open>references[i % references.length]\<close>: with an empty array the index is \<open>NaN\<close> and the
  read gives \<open>undefined\<close>.
\<close>

definition reference_at :: "string list \<Rightarrow> nat \<Rightarrow> string option" where
  "reference_at references i =
     (if references = [] then None else Some (references ! (i mod length references)))"

text \<open>
  The \<open>for\<close> loop of lines 463 to 477, from index \<open>i\<close> with the images pushed so far.
  \<open>if (img)\<close> pushes a truthy image; the \<open>catch\<close> skips the view.
\<close>

function inspiration_loop ::
  "'w service \<Rightarrow> string \<Rightarrow> CategoryOption \<Rightarrow> js_value \<Rightarrow> string list \<Rightarrow> string list \<Rightarrow>
   nat \<Rightarrow> string list \<Rightarrow> 'w state \<Rightarrow> string list \<times> 'w state"
where
  "inspiration_loop svc style category description views references i results st =
     (if i < length views then
        (case generateSingleImage svc style category description (views ! i)
                (reference_at references i) (if 0 < i then wait 2000 st else st) of
           (Inr img, st') \<Rightarrow>
             inspiration_loop svc style category description views references (Suc i)
               (case img of
                  Some d \<Rightarrow> if d \<noteq> [] then results @ [d] else results
                | None \<Rightarrow> results) st'
         | (Inl e, st') \<Rightarrow>
             inspiration_loop svc style category description views references (Suc i) results st')
      else (results, st))"
  by pat_completeness auto
termination
  by (relation "measure (\<lambda>(svc, style, category, description, views, references, i, results, st).
        length views - i)") auto

text \<open>
  Lines 450 to 480. \<open>customViews || [...]\<close> keeps any array passed, an empty one too. The
  \<open>await\<close> of the reference lookup is outside every \<open>try\<close>.
\<close>

definition generateInspirationImages ::
  "'w service \<Rightarrow> string \<Rightarrow> CategoryOption \<Rightarrow> js_value \<Rightarrow> string list option \<Rightarrow>
   'w state \<Rightarrow> (js_error + string list) \<times> 'w state"
where
  "generateInspirationImages svc style category description customViews st =
     (case getRealWorldReferences svc style category description 3 st of
        (Inl e, st1) \<Rightarrow> (Inl e, st1)
      | (Inr references, st1) \<Rightarrow>
          (let views = (case customViews of Some vs \<Rightarrow> vs | None \<Rightarrow> default_views) in
           case inspiration_loop svc style category description views references 0 [] st1 of
             (results, st2) \<Rightarrow> (Inr results, st2)))"

text \<open>
  The \<open>try\<close> block of lines 500 to 509 up to the value of its \<open>image\<close>: one reference is
  looked up, then one image is generated with \<open>refs[0]\<close>; either call may throw.
\<close>

definition surprise_image ::
  "'w service \<Rightarrow> CategoryOption \<Rightarrow> js_value \<Rightarrow> string \<Rightarrow> 'w state \<Rightarrow>
   (js_error + string option) \<times> 'w state"
where
  "surprise_image svc category description style st =
     (case getRealWorldReferences svc style category description 1 st of
        (Inl e, st1) \<Rightarrow> (Inl e, st1)
      | (Inr refs, st1) \<Rightarrow>
          generateSingleImage svc style category description ''straight on view, photorealistic''
            (case refs of [] \<Rightarrow> None | r # rs \<Rightarrow> Some r) st1)"

text \<open>
  A suggestion \<open>{ style, image }\<close> is a pair. The \<open>for\<close> loop of lines 494 to 513, from
  index \<open>i\<close> with the suggestions pushed so far.
\<close>

type_synonym suggestion = "string \<times> string"

function surprise_loop ::
  "'w service \<Rightarrow> string list \<Rightarrow> CategoryOption \<Rightarrow> js_value \<Rightarrow>
   nat \<Rightarrow> suggestion list \<Rightarrow> 'w state \<Rightarrow> suggestion list \<times> 'w state"
where
  "surprise_loop svc styles category description i results st =
     (if i < length styles then
        (case surprise_image svc category description (styles ! i)
                (if 0 < i then wait 3000 st else st) of
           (Inr img, st') \<Rightarrow>
             surprise_loop svc styles category description (Suc i)
               (case img of
                  Some d \<Rightarrow> if d \<noteq> [] then results @ [(styles ! i, d)] else results
                | None \<Rightarrow> results) st'
         | (Inl e, st') \<Rightarrow> surprise_loop svc styles category description (Suc i) results st')
      else (results, st))"
  by pat_completeness auto
termination
  by (relation "measure (\<lambda>(svc, styles, category, description, i, results, st).
        length styles - i)") auto

definition generateSurpriseImages ::
  "'w service \<Rightarrow> string list \<Rightarrow> CategoryOption \<Rightarrow> js_value \<Rightarrow>
   'w state \<Rightarrow> suggestion list \<times> 'w state"
where
  "generateSurpriseImages svc styles category description st =
     surprise_loop svc styles category description 0 [] st"

subsection \<open>What a batch is expected to return\<close>

text \<open>
  \<open>run_each f xs s\<close> performs \<open>f\<close> on each item of \<open>xs\<close> in turn, the state passing from
  one to the next, and records how each settled. \<open>successful\<close> keeps the images of the
  items that produced one, in order.
\<close>

fun run_each :: "('x \<Rightarrow> 's \<Rightarrow> 'r \<times> 's) \<Rightarrow> 'x list \<Rightarrow> 's \<Rightarrow> 'r list \<times> 's" where
  "run_each f [] s = ([], s)"
| "run_each f (x # xs) s =
     (case f x s of (r, s1) \<Rightarrow> (case run_each f xs s1 of (rs, s2) \<Rightarrow> (r # rs, s2)))"

fun successful :: "('x \<times> (js_error + 'a option)) list \<Rightarrow> ('x \<times> 'a) list" where
  "successful [] = []"
| "successful ((x, Inr (Some d)) # rs) = (x, d) # successful rs"
| "successful ((x, Inr None) # rs) = successful rs"
| "successful ((x, Inl e) # rs) = successful rs"

text \<open>
  The call made for the view at index \<open>i\<close>, after the pause that precedes every view but
  the first, and the call made for the style at index \<open>i\<close>.
\<close>

definition view_call ::
  "'w service \<Rightarrow> string \<Rightarrow> CategoryOption \<Rightarrow> js_value \<Rightarrow> string list \<Rightarrow> nat \<times> string \<Rightarrow>
   'w state \<Rightarrow> (js_error + string option) \<times> 'w state"
where
  "view_call svc style category description references iv st =
     generateSingleImage svc style category description (snd iv)
       (reference_at references (fst iv)) (if 0 < fst iv then wait 2000 st else st)"

definition style_call ::
  "'w service \<Rightarrow> CategoryOption \<Rightarrow> js_value \<Rightarrow> nat \<times> string \<Rightarrow>
   'w state \<Rightarrow> (js_error + string option) \<times> 'w state"
where
  "style_call svc category description iv st =
     surprise_image svc category description (snd iv) (if 0 < fst iv then wait 3000 st else st)"

section \<open>Plan generation\<close>

definition plan_request :: "string \<Rightarrow> string \<Rightarrow> CategoryOption \<Rightarrow> request" where
  "plan_request imageBase64 style category =
     \<lparr>model = ''gemini-2.5-flash'', inlineImage = Some imageBase64,
      prompt = PlanPrompt category style, config = PlanConfig PLAN_SCHEMA\<rparr>"

definition no_text_error :: js_error where
  "no_text_error =
     \<lparr>instanceof_Error = True, status = Undefined, code = Undefined,
      message = Some ''No text response received from Gemini.''\<rparr>"

text \<open>
  The operation wrapped at lines 98 to 162. \<open>JSON.parse\<close> is a builtin of the runtime and
  is a parameter here: it returns the value a text denotes or throws a \<open>SyntaxError\<close>
  whose message is the engine's. Nothing is checked between \<open>JSON.parse\<close> and the
  \<open>return\<close>; the \<open>catch\<close> logs and rethrows.
\<close>

definition generateProjectPlan_attempt ::
  "(string \<Rightarrow> js_error + json) \<Rightarrow> 'w service \<Rightarrow> string \<Rightarrow> string \<Rightarrow> CategoryOption \<Rightarrow>
   ('w client, ProjectPlan) operation"
where
  "generateProjectPlan_attempt JSON_parse svc imageBase64 style category s =
     (case generateContent svc (plan_request imageBase64 style category) s of
        (Inr response, s') \<Rightarrow>
          (case response_text response of
             None \<Rightarrow> (Inl no_text_error, s')
           | Some t \<Rightarrow> if t = [] then (Inl no_text_error, s') else (JSON_parse t, s'))
      | (Inl error, s') \<Rightarrow> (Inl error, s'))"

definition generateProjectPlan ::
  "(string \<Rightarrow> js_error + json) \<Rightarrow> 'w service \<Rightarrow> string \<Rightarrow> string \<Rightarrow> CategoryOption \<Rightarrow>
   'w state \<Rightarrow> (js_error + ProjectPlan) \<times> 'w state"
where
  "generateProjectPlan JSON_parse svc imageBase64 style category =
     retryOperation_default
       (generateProjectPlan_attempt JSON_parse svc imageBase64 style category)"

subsection \<open>Matching a schema\<close>

text \<open>
  Reading a property of a parsed value: an object has the properties it lists, \<open>null\<close>
  has none to read (the read throws), and on any other value a name such as
  \<open>itemDescription\<close> is undefined.
\<close>

definition property :: "json \<Rightarrow> string \<Rightarrow> js_value" where
  "property v k = (case v of JObject kvs \<Rightarrow> map_of kvs k | _ \<Rightarrow> None)"

text \<open>
  What it means for a value to match a schema: a string; an array within its length
  bounds whose items match; an object that has every required key and whose listed
  properties, where present, match.
\<close>

fun conforms :: "schema \<Rightarrow> json \<Rightarrow> bool" where
  "conforms STRING v = (case v of JString t \<Rightarrow> True | _ \<Rightarrow> False)"
| "conforms (ARRAY items minItems maxItems) v =
     (case v of
        JArray xs \<Rightarrow>
          list_all (conforms items) xs
          \<and> (case minItems of None \<Rightarrow> True | Some n \<Rightarrow> n \<le> length xs)
          \<and> (case maxItems of None \<Rightarrow> True | Some n \<Rightarrow> length xs \<le> n)
      | _ \<Rightarrow> False)"
| "conforms (OBJECT properties required) v =
     (case v of
        JObject kvs \<Rightarrow>
          list_all (\<lambda>k. map_of kvs k \<noteq> None) required
          \<and> list_all (\<lambda>ks. case map_of kvs (fst ks) of
                               None \<Rightarrow> True
                             | Some x \<Rightarrow> conforms (snd ks) x) properties
      | _ \<Rightarrow> False)"

subsection \<open>A parser for plain JSON texts\<close>

text \<open>
  For running the plan functions on concrete texts: a parser of JSON texts made of
  objects, arrays, strings without escapes, integers and the three literals, with
  whitespace between tokens. On a text it accepts it returns what \<open>JSON.parse\<close> returns,
  a repeated key keeping its first position and its last value; it rejects every text
  that \<open>JSON.parse\<close> rejects, and texts with escapes, fractions or exponents as well. The
  first argument of the parsing functions bounds the depth of their recursion.
\<close>

definition is_ws :: "char \<Rightarrow> bool" where
  "is_ws c \<longleftrightarrow> c = CHR 0x20 \<or> c = CHR 0x09 \<or> c = CHR 0x0A \<or> c = CHR 0x0D"

definition is_digit :: "char \<Rightarrow> bool" where
  "is_digit c \<longleftrightarrow> (48::nat) \<le> of_char c \<and> of_char c \<le> (57::nat)"

fun string_body :: "string \<Rightarrow> string \<Rightarrow> (string \<times> string) option" where
  "string_body [] acc = None"
| "string_body (c # cs) acc =
     (if c = CHR 0x22 then Some (rev acc, cs)
      else if c = CHR 0x5C \<or> of_char c < (32::nat) then None
      else string_body cs (c # acc))"

definition number_lexeme :: "string \<Rightarrow> (string \<times> string) option" where
  "number_lexeme cs =
     (let sign = takeWhile (\<lambda>c. c = CHR ''-'') (take 1 cs);
          ds = takeWhile is_digit (drop (length sign) cs);
          rest = dropWhile is_digit (drop (length sign) cs)
      in if ds = [] \<or> (1 < length ds \<and> take 1 ds = ''0'')
            \<or> take 1 rest = ''.'' \<or> take 1 rest = ''e'' \<or> take 1 rest = ''E''
         then None else Some (sign @ ds, rest))"

fun set_property :: "(string \<times> json) list \<Rightarrow> string \<Rightarrow> json \<Rightarrow> (string \<times> json) list" where
  "set_property [] k v = [(k, v)]"
| "set_property (kv # kvs) k v =
     (if fst kv = k then (k, v) # kvs else kv # set_property kvs k v)"

fun parse_value :: "nat \<Rightarrow> string \<Rightarrow> (json \<times> string) option"
  and parse_elements :: "nat \<Rightarrow> string \<Rightarrow> json list \<Rightarrow> (json \<times> string) option"
  and parse_members :: "nat \<Rightarrow> string \<Rightarrow> (string \<times> json) list \<Rightarrow> (json \<times> string) option"
where
  "parse_value 0 cs = None"
| "parse_value (Suc n) cs =
     (case dropWhile is_ws cs of
        [] \<Rightarrow> None
      | c # r \<Rightarrow>
          if c = CHR ''{'' then
            (if take 1 (dropWhile is_ws r) = ''}''
             then Some (JObject [], drop 1 (dropWhile is_ws r))
             else parse_members n r [])
          else if c = CHR ''['' then
            (if take 1 (dropWhile is_ws r) = '']''
             then Some (JArray [], drop 1 (dropWhile is_ws r))
             else parse_elements n r [])
          else if c = CHR 0x22 then
            (case string_body r [] of
               None \<Rightarrow> None
             | Some (t, r') \<Rightarrow> Some (JString t, r'))
          else if take 4 (c # r) = ''null'' then Some (JNull, drop 4 (c # r))
          else if take 4 (c # r) = ''true'' then Some (JBool True, drop 4 (c # r))
          else if take 5 (c # r) = ''false'' then Some (JBool False, drop 5 (c # r))
          else
            (case number_lexeme (c # r) of
               None \<Rightarrow> None
             | Some (t, r') \<Rightarrow> Some (JNumber t, r')))"
| "parse_elements 0 cs acc = None"
| "parse_elements (Suc n) cs acc =
     (case parse_value n cs of
        None \<Rightarrow> None
      | Some (v, r) \<Rightarrow>
          (case dropWhile is_ws r of
             [] \<Rightarrow> None
           | c # r' \<Rightarrow>
               if c = CHR '','' then parse_elements n r' (acc @ [v])
               else if c = CHR '']'' then Some (JArray (acc @ [v]), r')
               else None))"
| "parse_members 0 cs acc = None"
| "parse_members (Suc n) cs acc =
     (case dropWhile is_ws cs of
        [] \<Rightarrow> None
      | c # r \<Rightarrow>
          if c \<noteq> CHR 0x22 then None
          else
            (case string_body r [] of
               None \<Rightarrow> None
             | Some (k, r1) \<Rightarrow>
                 if take 1 (dropWhile is_ws r1) \<noteq> '':'' then None
                 else
                   (case parse_value n (drop 1 (dropWhile is_ws r1)) of
                      None \<Rightarrow> None
                    | Some (v, r2) \<Rightarrow>
                        (case dropWhile is_ws r2 of
                           [] \<Rightarrow> None
                         | c' # r3 \<Rightarrow>
                             if c' = CHR '','' then parse_members n r3 (set_property acc k v)
                             else if c' = CHR ''}'' then Some (JObject (set_property acc k v), r3)
                             else None))))"

definition SyntaxError :: js_error where
  "SyntaxError =
     \<lparr>instanceof_Error = True, status = Undefined, code = Undefined,
      message = Some ''Unexpected token in JSON''\<rparr>"

definition JSON_parse_plain :: "string \<Rightarrow> js_error + json" where
  "JSON_parse_plain t =
     (case parse_value (2 * length t + 2) t of
        None \<Rightarrow> Inl SyntaxError
      | Some (v, r) \<Rightarrow> if dropWhile is_ws r = [] then Inr v else Inl SyntaxError)"

section \<open>The plan orchestration of the application\<close>

text \<open>
  \<open>App.tsx\<close>. The state of the component that \<open>generateFullPlan\<close> reads and sets. The
  result data is a standard result (a plan and its images) or a surprise result (an item
  description and suggestions), or \<open>null\<close>.
\<close>

datatype AppState = Upload | Analyzing | Results | Error

datatype result_data =
  Standard ProjectPlan "string list"
| Surprise js_value "suggestion list"

record app =
  step :: AppState
  selectedImage :: "string option"
  selectedCategory :: CategoryOption
  resultData :: "result_data option"
  errorMessage :: string

text \<open>
  \<open>plan.itemDescription\<close>: reading a property of \<open>null\<close> throws a \<open>TypeError\<close> (the message
  is the engine's).
\<close>

definition TypeError :: js_error where
  "TypeError =
     \<lparr>instanceof_Error = True, status = Undefined, code = Undefined,
      message = Some ''Cannot read properties of null (reading 'itemDescription')''\<rparr>"

definition itemDescription_of :: "ProjectPlan \<Rightarrow> js_error + js_value" where
  "itemDescription_of plan =
     (case plan of JNull \<Rightarrow> Inl TypeError | _ \<Rightarrow> Inr (property plan ''itemDescription''))"

text \<open>The \<open>catch\<close> block of lines 326 to 330 and the two setters of lines 322 and 323.\<close>

definition show_error :: "app \<Rightarrow> js_error \<Rightarrow> app" where
  "show_error a error =
     a\<lparr>errorMessage :=
         (case message error of
            None \<Rightarrow> ''Something went wrong.''
          | Some m \<Rightarrow> if m \<noteq> [] then m else ''Something went wrong.''),
       step := Error\<rparr>"

definition show_results :: "app \<Rightarrow> ProjectPlan \<Rightarrow> string list \<Rightarrow> app" where
  "show_results a plan images = a\<lparr>resultData := Some (Standard plan images), step := Results\<rparr>"

text \<open>
  Lines 306 to 331. Both branches read \<open>plan.itemDescription\<close> before they call
  \<open>generateInspirationImages\<close>; an \<open>initialImage\<close> that is undefined or empty takes the
  \<open>else\<close> branch.
\<close>

definition generateFullPlan ::
  "(string \<Rightarrow> js_error + json) \<Rightarrow> 'w service \<Rightarrow> string \<Rightarrow> string option \<Rightarrow>
   app \<times> 'w state \<Rightarrow> app \<times> 'w state"
where
  "generateFullPlan JSON_parse svc style initialImage ast =
     (case selectedImage (fst ast) of
        None \<Rightarrow> ast
      | Some img \<Rightarrow>
          if img = [] then ast
          else
            (let a = (fst ast)\<lparr>step := Analyzing, errorMessage := []\<rparr> in
             case generateProjectPlan JSON_parse svc img style (selectedCategory (fst ast))
                    (snd ast) of
               (Inl error, st1) \<Rightarrow> (show_error a error, st1)
             | (Inr plan, st1) \<Rightarrow>
                 (case itemDescription_of plan of
                    Inl error \<Rightarrow> (show_error a error, st1)
                  | Inr description \<Rightarrow>
                      (case (if truthy initialImage then initialImage else None) of
                         Some initial \<Rightarrow>
                           (case generateInspirationImages svc style (selectedCategory (fst ast))
                                   description
                                   (Some [''slightly angled view'', ''detail focused view''])
                                   st1 of
                              (Inl error, st2) \<Rightarrow> (show_error a error, st2)
                            | (Inr additionalImages, st2) \<Rightarrow>
                                (show_results a plan (initial # additionalImages), st2))
                       | None \<Rightarrow>
                           (case generateInspirationImages svc style (selectedCategory (fst ast))
                                   description None st1 of
                              (Inl error, st2) \<Rightarrow> (show_error a error, st2)
                            | (Inr images, st2) \<Rightarrow> (show_results a plan images, st2))))))"

text \<open>The views asked for by the image requests of a log, in the order of the requests.\<close>

fun requested_views :: "request list \<Rightarrow> string list" where
  "requested_views [] = []"
| "requested_views (r # rs) =
     (case prompt r of
        FurniturePrompt style description viewContext refContext \<Rightarrow>
          viewContext # requested_views rs
      | RoomPrompt style description viewContext refContext \<Rightarrow>
          viewContext # requested_views rs
      | _ \<Rightarrow> requested_views rs)"

section \<open>Test doubles for the service\<close>

text \<open>
  Stateless services: one that throws the same error at every request, one that answers
  every request with the given grounding chunks, one that answers with a given
  \<open>response.text\<close>; and the chunk of a web source with a given \<open>uri\<close>.
\<close>

definition throwing :: "js_error \<Rightarrow> unit service" where
  "throwing e req w = (Inl e, w)"

definition grounded :: "chunk list \<Rightarrow> unit service" where
  "grounded cs req w =
     (Inr \<lparr>response_text = None, parts = None, groundingChunks = Some cs\<rparr>, w)"

definition url_chunk :: "string \<Rightarrow> chunk" where
  "url_chunk u = \<lparr>web = Some \<lparr>uri = Some u\<rparr>\<rparr>"

definition replying :: "string option \<Rightarrow> unit service" where
  "replying t req w = (Inr \<lparr>response_text = t, parts = None, groundingChunks = None\<rparr>, w)"

text \<open>
  A stateless service that answers an image request with one inline image, or with an
  error, chosen by the style and the view asked for, and any other request with an empty
  response.
\<close>

definition picture_service :: "(string \<Rightarrow> string \<Rightarrow> js_error + string option) \<Rightarrow> unit service" where
  "picture_service f req w =
     (case prompt req of
        FurniturePrompt style description viewContext refContext \<Rightarrow>
          (case f style viewContext of
             Inl e \<Rightarrow> Inl e
           | Inr d \<Rightarrow>
               Inr \<lparr>response_text = None, parts = Some [\<lparr>inlineData = Some \<lparr>data = d\<rparr>\<rparr>],
                    groundingChunks = None\<rparr>)
      | RoomPrompt style description viewContext refContext \<Rightarrow>
          (case f style viewContext of
             Inl e \<Rightarrow> Inl e
           | Inr d \<Rightarrow>
               Inr \<lparr>response_text = None, parts = Some [\<lparr>inlineData = Some \<lparr>data = d\<rparr>\<rparr>],
                    groundingChunks = None\<rparr>)
      | _ \<Rightarrow> Inr \<lparr>response_text = None, parts = None, groundingChunks = None\<rparr>,
      w)"

text \<open>
  A service that answers a plan request with the given text and every other request as
  \<open>picture_service\<close> does; a plan as a JSON text, and the value it denotes.
\<close>

definition plan_and_pictures ::
  "string option \<Rightarrow> (string \<Rightarrow> string \<Rightarrow> js_error + string option) \<Rightarrow> unit service"
where
  "plan_and_pictures t f req w =
     (case prompt req of
        PlanPrompt category style \<Rightarrow> replying t req w
      | _ \<Rightarrow> picture_service f req w)"

definition plan_text :: string where
  \<open>plan_text = ''{"styleSummary": "Warm oak", "steps": ["Sand the top", "Apply stain"], "costEstimate": "$50 - $100", "timeEstimate": "3-4 hours", "materials": ["Stain"], "tools": ["Sander"], "safety": ["Wear a mask"], "itemDescription": "oak dresser"}''\<close>

definition plan_value :: json where
  "plan_value = JObject
     [(''styleSummary'', JString ''Warm oak''),
      (''steps'', JArray [JString ''Sand the top'', JString ''Apply stain'']),
      (''costEstimate'', JString ''$50 - $100''),
      (''timeEstimate'', JString ''3-4 hours''),
      (''materials'', JArray [JString ''Stain'']),
      (''tools'', JArray [JString ''Sander'']),
      (''safety'', JArray [JString ''Wear a mask'']),
      (''itemDescription'', JString ''oak dresser'')]"

text \<open>The eight fields of a \<open>ProjectPlan\<close>.\<close>

definition plan_fields :: "string list" where
  "plan_fields = [''styleSummary'', ''steps'', ''costEstimate'', ''timeEstimate'', ''materials'',
     ''tools'', ''safety'', ''itemDescription'']"

text \<open>
  A picture for every view, and the application with an image selected and nothing
  generated yet.
\<close>

definition pictures :: "string \<Rightarrow> string \<Rightarrow> js_error + string option" where
  "pictures style view = Inr (Some (''image: '' @ view))"

definition app0 :: app where
  "app0 =
     \<lparr>step = Upload, selectedImage = Some ''/9j/4AAQ'', selectedCategory = FurnitureFlipping,
      resultData = None, errorMessage = []\<rparr>"

section \<open>Properties of the retry wrapper\<close>

declare retryOperation.simps [simp del]

declare pad_urls.simps [simp del]

lemma retryOperation_success:
  "operation s = (Inr v, s') \<Longrightarrow> retryOperation operation r d (s, ws) = (Inr v, (s', ws))"
  by (subst retryOperation.simps) simp

lemma retryOperation_retry:
  "operation s = (Inl e, s') \<Longrightarrow> 0 < r \<Longrightarrow> isRateLimit e \<Longrightarrow>
   retryOperation operation r d (s, ws) = retryOperation operation (r - 1) (d * 2) (s', ws @ [d])"
  by (subst retryOperation.simps) (simp add: wait_def)

lemma retryOperation_throw:
  "operation s = (Inl e, s') \<Longrightarrow> \<not> (0 < r \<and> isRateLimit e) \<Longrightarrow>
   retryOperation operation r d (s, ws) = (Inl e, (s', ws))"
  by (subst retryOperation.simps) auto

lemma backoff_Suc: "backoff d (Suc k) = d # backoff (d * 2) k"
  by (simp add: backoff_def map_upt_Suc del: upt_Suc) 

lemma outcome_0: "outcome operation s 0 = fst (operation s)"
  by (simp add: outcome_def)

lemma outcome_Suc: "outcome operation s (Suc n) = outcome operation (snd (operation s)) n"
  by (simp add: outcome_def)

text \<open>
  As long as the invocations fail with a rate-limit error and retries remain, the wrapper
  goes on: after \<open>k\<close> such failures it is where a fresh call with \<open>k\<close> retries less
  and the delay doubled \<open>k\<close> times would start.
\<close>

lemma retryOperation_after_failures:
  "(\<And>i. i < k \<Longrightarrow> \<exists>e. outcome operation s i = Inl e \<and> isRateLimit e) \<Longrightarrow> int k \<le> b \<Longrightarrow>
   retryOperation operation b d (s, ws) =
   retryOperation operation (b - int k) (d * 2 ^ k) (op_state operation s k, ws @ backoff d k)"
proof (induction k arbitrary: s b d ws)
  case 0
  show ?case by (simp add: backoff_def)
next
  case (Suc k)
  from Suc.prems(1) [of 0] obtain e where e: "outcome operation s 0 = Inl e" "isRateLimit e"
    by auto
  obtain s' where s': "operation s = (Inl e, s')"
    using e(1) by (cases "operation s") (simp add: outcome_0)
  have later: "\<exists>e. outcome operation s' i = Inl e \<and> isRateLimit e" if "i < k" for i
    using Suc.prems(1) [of "Suc i"] that s' by (simp add: outcome_Suc)
  have "retryOperation operation b d (s, ws) =
        retryOperation operation (b - 1) (d * 2) (s', ws @ [d])"
    using s' e(2) Suc.prems(2) by (intro retryOperation_retry) auto
  also have "\<dots> = retryOperation operation (b - 1 - int k) (d * 2 * 2 ^ k)
                     (op_state operation s' k, (ws @ [d]) @ backoff (d * 2) k)"
    using later Suc.prems(2) by (intro Suc.IH) auto
  finally show ?case
    using s' by (simp add: backoff_Suc algebra_simps)
qed

lemma backoff_nth: "n < k \<Longrightarrow> backoff d k ! n = d * 2 ^ n"
  by (simp add: backoff_def)

lemma counting_bound:
  "\<exists>res n' s' ws'. retryOperation (counting operation) r d ((n, s), ws) = (res, ((n', s'), ws'))
     \<and> n < n' \<and> n' \<le> n + nat r + 1"
proof (induction "nat r" arbitrary: r d n s ws)
  case 0
  obtain res s' where op: "counting operation (n, s) = (res, (Suc n, s'))"
    by (cases "operation s") (simp add: counting_def)
  have "retryOperation (counting operation) r d ((n, s), ws) = (res, ((Suc n, s'), ws))"
  proof (cases res)
    case (Inl e)
    from op [unfolded Inl] 0 show ?thesis
      unfolding Inl by (intro retryOperation_throw) auto
  next
    case (Inr v)
    from op [unfolded Inr] show ?thesis
      unfolding Inr by (rule retryOperation_success)
  qed
  then show ?case by simp
next
  case (Suc m)
  obtain res s' where op: "counting operation (n, s) = (res, (Suc n, s'))"
    by (cases "operation s") (simp add: counting_def)
  show ?case
  proof (cases res)
    case (Inr v)
    from op [unfolded Inr]
    have "retryOperation (counting operation) r d ((n, s), ws) = (Inr v, ((Suc n, s'), ws))"
      by (rule retryOperation_success)
    then show ?thesis by simp
  next
    case (Inl e)
    show ?thesis
    proof (cases "isRateLimit e")
      case False
      with op [unfolded Inl]
      have "retryOperation (counting operation) r d ((n, s), ws) = (Inl e, ((Suc n, s'), ws))"
        by (intro retryOperation_throw) auto
      then show ?thesis by simp
    next
      case True
      have step: "retryOperation (counting operation) r d ((n, s), ws) =
                  retryOperation (counting operation) (r - 1) (d * 2) ((Suc n, s'), ws @ [d])"
        using op [unfolded Inl] True Suc.hyps(2) by (intro retryOperation_retry) auto
      have "m = nat (r - 1)" using Suc.hyps(2) by simp
      from Suc.hyps(1) [OF this, of "d * 2" "Suc n" s' "ws @ [d]"]
      obtain res' n' s'' ws' where
        "retryOperation (counting operation) (r - 1) (d * 2) ((Suc n, s'), ws @ [d]) =
           (res', ((n', s''), ws'))" "Suc n < n'" "n' \<le> Suc n + nat (r - 1) + 1"
        by blast
      with step Suc.hyps(2) show ?thesis by auto
    qed
  qed
qed

section \<open>Claims about the retry wrapper\<close>

text \<open>
  C1. For every operation wrapped by \<open>retryOperation\<close> with retry budget \<open>b\<close> and base
  delay \<open>d\<close>: if the operation fails with a rate-limit signal on its first \<open>k\<close>
  invocations and succeeds with \<open>v\<close> on the next one, and \<open>k\<close> does not exceed the budget
  (in particular if \<open>k < b\<close>), then the wrapper returns \<open>v\<close>, the operation has been
  invoked \<open>k + 1\<close> times, and the wrapper has waited \<open>k\<close> times, the delay before the
  \<open>n\<close>th retry being \<open>d * 2 ^ (n - 1)\<close>.
\<close>

theorem retryOperation_backoff_then_success:
  assumes "\<forall>i<k. \<exists>e. outcome operation s i = Inl e \<and> isRateLimit e"
    and "outcome operation s k = Inr v"
    and "int k \<le> b"
  shows "retryOperation operation b d (s, ws) =
           (Inr v, (op_state operation s (Suc k), ws @ backoff d k))
         \<and> length (backoff d k) = k
         \<and> (\<forall>n. 1 \<le> n \<and> n \<le> k \<longrightarrow> backoff d k ! (n - 1) = d * 2 ^ (n - 1))"
proof -
  have "retryOperation operation b d (s, ws) =
        retryOperation operation (b - int k) (d * 2 ^ k) (op_state operation s k, ws @ backoff d k)"
    using assms(1,3) by (intro retryOperation_after_failures) auto
  moreover obtain s' where "operation (op_state operation s k) = (Inr v, s')"
    using assms(2) by (cases "operation (op_state operation s k)") (simp add: outcome_def)
  moreover from this have "op_state operation s (Suc k) = s'"
    by (induction k arbitrary: s) simp_all
  ultimately have "retryOperation operation b d (s, ws) =
      (Inr v, (op_state operation s (Suc k), ws @ backoff d k))"
    by (simp add: retryOperation_success)
  moreover have "length (backoff d k) = k"
    by (simp add: backoff_def)
  moreover have "\<forall>n. 1 \<le> n \<and> n \<le> k \<longrightarrow> backoff d k ! (n - 1) = d * 2 ^ (n - 1)"
    by (auto intro: backoff_nth)
  ultimately show ?thesis by blast
qed

theorem retryOperation_backoff_then_success_witness:
  "retryOperation (fake_operation 2 rate_limit_error ''image'') 3 2000 (0, []) =
     (Inr ''image'', (3, [2000, 4000]))"
  using retryOperation_backoff_then_success
    [of 2 "fake_operation 2 rate_limit_error ''image''" 0 "''image''" 3 2000 "[]"]
  by (simp add: outcome_def fake_operation_def isRateLimit_def rate_limit_error_def backoff_def
      eval_nat_numeral less_Suc_eq)

text \<open>
  C2. For every operation wrapped by \<open>retryOperation\<close>: if its first invocation fails with
  an error that is not a rate-limit signal, the wrapper propagates that error after this
  one invocation and without waiting, whatever the budget; and if the operation fails with
  rate-limit errors on all \<open>r + 1\<close> invocations that a budget of \<open>r\<close> retries allows, the
  wrapper propagates the error of the last invocation, unchanged.
\<close>

theorem retryOperation_propagates:
  "(outcome operation s 0 = Inl e \<and> \<not> isRateLimit e \<longrightarrow>
      retryOperation operation b d (s, ws) = (Inl e, (op_state operation s 1, ws)))
   \<and> ((\<forall>i<r. \<exists>e'. outcome operation s i = Inl e' \<and> isRateLimit e') \<and>
       outcome operation s r = Inl e \<and> isRateLimit e \<longrightarrow>
      retryOperation operation (int r) d (s, ws) =
        (Inl e, (op_state operation s (Suc r), ws @ backoff d r)))"
proof (intro conjI impI)
  assume a: "outcome operation s 0 = Inl e \<and> \<not> isRateLimit e"
  then obtain s' where "operation s = (Inl e, s')"
    by (cases "operation s") (simp add: outcome_0)
  with a show "retryOperation operation b d (s, ws) = (Inl e, (op_state operation s 1, ws))"
    by (simp add: retryOperation_throw)
next
  assume a: "(\<forall>i<r. \<exists>e'. outcome operation s i = Inl e' \<and> isRateLimit e') \<and>
       outcome operation s r = Inl e \<and> isRateLimit e"
  have "retryOperation operation (int r) d (s, ws) =
        retryOperation operation (int r - int r) (d * 2 ^ r)
          (op_state operation s r, ws @ backoff d r)"
    using a by (intro retryOperation_after_failures) auto
  moreover obtain s' where s': "operation (op_state operation s r) = (Inl e, s')"
    using a by (cases "operation (op_state operation s r)") (simp add: outcome_def)
  moreover from s' have "op_state operation s (Suc r) = s'"
    by (induction r arbitrary: s) simp_all
  ultimately show "retryOperation operation (int r) d (s, ws) =
        (Inl e, (op_state operation s (Suc r), ws @ backoff d r))"
    by (simp add: retryOperation_throw)
qed

theorem retryOperation_propagates_witness:
  "retryOperation (fake_operation 1 safety_error ''image'') 3 2000 (0, []) =
     (Inl safety_error, (1, []))
   \<and> retryOperation (fake_operation 9 quota_error ''image'') 3 2000 (0, []) =
     (Inl quota_error, (4, [2000, 4000, 8000]))"
  using
    retryOperation_propagates
      [of "fake_operation 1 safety_error ''image''" 0 safety_error 3 2000 "[]" 0]
    retryOperation_propagates
      [of "fake_operation 9 quota_error ''image''" 0 quota_error 3 2000 "[]" 3]
  by (simp add: outcome_def fake_operation_def isRateLimit_def safety_error_def quota_error_def
      backoff_def eval_nat_numeral less_Suc_eq)

text \<open>
  C10. \<open>retryOperation\<close> terminates for every operation, budget and base delay: it is a
  total function, its recursion being accepted along the measure \<open>nat retries\<close>, which
  the recursive call (made only when \<open>retries > 0\<close>, with \<open>retries - 1\<close>) decreases. With
  a budget \<open>r \<ge> 0\<close> the operation is invoked at least once and at most \<open>r + 1\<close> times:
  the counter of an instrumented operation grows by between 1 and \<open>r + 1\<close>.
\<close>

theorem retryOperation_invocations_bounded:
  assumes "0 \<le> r"
  shows "\<exists>res n' s' ws'.
           retryOperation (counting operation) r d ((n, s), ws) = (res, ((n', s'), ws'))
           \<and> n < n' \<and> int n' \<le> int n + r + 1"
proof -
  from counting_bound [of operation r d n s ws] obtain res n' s' ws' where
    "retryOperation (counting operation) r d ((n, s), ws) = (res, ((n', s'), ws'))"
    "n < n'" "n' \<le> n + nat r + 1" by blast
  with assms show ?thesis by auto
qed

theorem retryOperation_invocations_bounded_witness:
  "retryOperation (counting (fake_operation 9 quota_error ''x'')) 3 2000 ((0, 0), []) =
     (Inl quota_error, ((4, 4), [2000, 4000, 8000]))"
  using retryOperation_invocations_bounded [of 3 "fake_operation 9 quota_error ''x''" 2000 0 0 "[]"]
  by (simp add: retryOperation.simps counting_def fake_operation_def isRateLimit_def
      quota_error_def wait_def)

section \<open>Claims about the generation client\<close>

text \<open>
  C3. In single-image generation every error that signals a rate limit (status or code
  429, or a message that contains \<open>429\<close> or \<open>quota\<close>) is to be rethrown so that the retrier
  acts on it. The code rethrows only an \<open>Error\<close> whose \<open>status\<close> is 429: an error that the
  retrier would recognise by its message alone is swallowed before it reaches the
  retrier. With a service that throws such a quota error at every request,
  \<open>generateSingleImage\<close> sends one request, waits for nothing, and resolves with \<open>null\<close>.
\<close>

theorem generateSingleImage_swallows_quota_error:
  "isRateLimit quota_error \<and>
   generateSingleImage (throwing quota_error) ''Japandi'' FurnitureFlipping
       (Some (JString ''oak dresser'')) ''straight on view'' None (((), []), []) =
     (Inr None,
      (((), [image_request ''Japandi'' FurnitureFlipping (Some (JString ''oak dresser''))
               ''straight on view'' None]), []))"
  by (simp add: isRateLimit_def quota_error_def generateSingleImage_def retryOperation_default_def
      retryOperation.simps generateSingleImage_attempt_def generateContent_def throwing_def)

lemma pad_urls_eq: "pad_urls urls count = urls @ replicate (nat (count - int (length urls))) []"
proof (induction urls count rule: pad_urls.induct)
  case (1 urls count)
  show ?case
  proof (cases "int (length urls) < count")
    case True
    then have "nat (count - int (length urls)) = Suc (nat (count - int (length (urls @ [[]]))))"
      by simp
    with True 1 show ?thesis
      by (subst pad_urls.simps) (simp add: replicate_app_Cons_same)
  next
    case False
    then show ?thesis by (subst pad_urls.simps) simp
  qed
qed

text \<open>The loop of the source collects exactly the URLs found, in their order.\<close>

lemma chunk_uris_usable_urls: "chunk_uris cs = usable_urls cs"
  by (induction cs)
    (simp_all add: usable_urls_def carries_url_def url_of_def split: option.split)

lemma getRealWorldReferences_attempt_total:
  assumes "0 \<le> N" and "N \<le> 4294967295"
  shows "getRealWorldReferences_attempt svc style category description N (w, log) =
    (Inr (take (nat N) (found_urls svc style category description N w @ replicate (nat N) [])),
     (snd (svc (reference_request style category description N) w),
      log @ [reference_request style category description N]))"
proof -
  let ?req = "reference_request style category description N"
  obtain r w' where svc: "svc ?req w = (r, w')" by (cases "svc ?req w")
  show ?thesis
  proof (cases r)
    case (Inl e)
    with svc assms show ?thesis
      by (simp add: getRealWorldReferences_attempt_def generateContent_def Array_fill_empty_def
          found_urls_def)
  next
    case (Inr response)
    with svc assms show ?thesis
      by (simp add: getRealWorldReferences_attempt_def generateContent_def slice0_def pad_urls_eq
          found_urls_def chunk_uris_usable_urls Let_def split: option.split)
  qed
qed

lemma getRealWorldReferences_returns:
  assumes "0 \<le> N" and "N \<le> 4294967295"
  shows "getRealWorldReferences svc style category description N ((w, log), ws) =
           (Inr (take (nat N) (found_urls svc style category description N w
                               @ replicate (nat N) [])),
            ((snd (svc (reference_request style category description N) w),
              log @ [reference_request style category description N]), ws))
         \<and> length (take (nat N) (found_urls svc style category description N w
                                   @ replicate (nat N) [])) = nat N"
proof -
  note a = getRealWorldReferences_attempt_total [OF assms, of svc style category description w log]
  have "retryOperation (getRealWorldReferences_attempt svc style category description N) 3 2000
          ((w, log), ws) =
        (Inr (take (nat N) (found_urls svc style category description N w
                            @ replicate (nat N) [])),
         ((snd (svc (reference_request style category description N) w),
           log @ [reference_request style category description N]), ws))"
    by (rule retryOperation_success) (rule a)
  then show ?thesis
    unfolding getRealWorldReferences_def retryOperation_default_def by simp
qed

text \<open>
  C4. For every requested count \<open>N\<close> that is a possible array length (\<open>0 \<le> N < 2^32\<close>; the
  callers pass 1 and 3), reference lookup returns a list and does not throw. The list
  starts with the URLs found in the grounding metadata of the response, in the order of
  their chunks and at most \<open>N\<close> of them, and continues with empty strings up to length
  \<open>N\<close>; when the call fails, or the response has no usable URL, it is \<open>N\<close> empty strings.
  It has exactly \<open>N\<close> entries: entry \<open>i\<close> is the \<open>i\<close>th URL found when there is one and
  the empty string otherwise. One request is sent and nothing is waited for.
\<close>

theorem getRealWorldReferences_exactly_N:
  assumes "0 \<le> N" and "N \<le> 4294967295"
  shows "getRealWorldReferences svc style category description N ((w, log), ws) =
           (Inr (take (nat N) (found_urls svc style category description N w)
                 @ replicate (nat N - length (found_urls svc style category description N w)) []),
            ((snd (svc (reference_request style category description N) w),
              log @ [reference_request style category description N]), ws))
         \<and> length (take (nat N) (found_urls svc style category description N w)
                   @ replicate (nat N - length (found_urls svc style category description N w)) [])
             = nat N
         \<and> (\<forall>i < nat N.
               (take (nat N) (found_urls svc style category description N w)
                @ replicate (nat N - length (found_urls svc style category description N w)) [])
               ! i =
               (if i < length (found_urls svc style category description N w)
                then found_urls svc style category description N w ! i else []))"
proof -
  let ?found = "found_urls svc style category description N w"
  have "getRealWorldReferences svc style category description N ((w, log), ws) =
           (Inr (take (nat N) (?found @ replicate (nat N) [])),
            ((snd (svc (reference_request style category description N) w),
              log @ [reference_request style category description N]), ws))"
    using getRealWorldReferences_returns [OF assms, of svc style category description w log ws]
    by (rule conjunct1)
  moreover have "take (nat N) (?found @ replicate (nat N) []) =
                 take (nat N) ?found @ replicate (nat N - length ?found) []"
    by simp
  moreover have "length (take (nat N) ?found @ replicate (nat N - length ?found) []) = nat N"
    by simp
  moreover have "\<forall>i < nat N.
      (take (nat N) ?found @ replicate (nat N - length ?found) []) ! i =
      (if i < length ?found then ?found ! i else [])"
    by (simp add: nth_append)
  ultimately show ?thesis by simp
qed

theorem getRealWorldReferences_exactly_N_witness:
  "getRealWorldReferences
      (grounded [\<lparr>web = None\<rparr>, \<lparr>web = Some \<lparr>uri = None\<rparr>\<rparr>, url_chunk [],
                 url_chunk ''https://a.example/1'', \<lparr>web = None\<rparr>,
                 url_chunk ''https://b.example/2''])
      ''Japandi'' FurnitureFlipping (Some (JString ''oak dresser'')) 3 (((), []), []) =
     (Inr [''https://a.example/1'', ''https://b.example/2'', []],
      (((), [reference_request ''Japandi'' FurnitureFlipping (Some (JString ''oak dresser'')) 3]), []))
   \<and> getRealWorldReferences
      (grounded [url_chunk ''https://a.example/1'', url_chunk ''https://b.example/2''])
      ''Japandi'' FurnitureFlipping (Some (JString ''oak dresser'')) 1 (((), []), []) =
     (Inr [''https://a.example/1''],
      (((), [reference_request ''Japandi'' FurnitureFlipping (Some (JString ''oak dresser'')) 1]), []))
   \<and> getRealWorldReferences (throwing quota_error) ''Japandi'' FurnitureFlipping
      (Some (JString ''oak dresser'')) 1 (((), []), []) =
     (Inr [[]],
      (((), [reference_request ''Japandi'' FurnitureFlipping (Some (JString ''oak dresser'')) 1]), []))"
  using
    getRealWorldReferences_exactly_N
      [of 3 "grounded [\<lparr>web = None\<rparr>, \<lparr>web = Some \<lparr>uri = None\<rparr>\<rparr>, url_chunk [],
                 url_chunk ''https://a.example/1'', \<lparr>web = None\<rparr>,
                 url_chunk ''https://b.example/2'']"
        "''Japandi''" FurnitureFlipping "Some (JString ''oak dresser'')" "()" "[]" "[]"]
    getRealWorldReferences_exactly_N
      [of 1 "grounded [url_chunk ''https://a.example/1'', url_chunk ''https://b.example/2'']"
        "''Japandi''" FurnitureFlipping "Some (JString ''oak dresser'')" "()" "[]" "[]"]
    getRealWorldReferences_exactly_N
      [of 1 "throwing quota_error" "''Japandi''" FurnitureFlipping
        "Some (JString ''oak dresser'')" "()" "[]" "[]"]
  by (simp add: found_urls_def usable_urls_def carries_url_def url_of_def url_chunk_def
      grounded_def throwing_def eval_nat_numeral)

text \<open>
  C8. For every plan, history and user message: when the service answers the chat
  request, \<open>sendProjectChat\<close> returns the text of the response if that text is not empty,
  and the fixed apology if the text is empty or absent.
\<close>

theorem sendProjectChat_fallback:
  assumes "svc (chat_request plan history newMessage) w = (Inr response, w')"
  shows "sendProjectChat svc plan history newMessage ((w, log), ws) =
           (Inr (case response_text response of
                   None \<Rightarrow> chat_fallback
                 | Some t \<Rightarrow> if t = [] then chat_fallback else t),
            ((w', log @ [chat_request plan history newMessage]), ws))"
proof -
  have "sendProjectChat_attempt svc plan history newMessage (w, log) =
          (Inr (case response_text response of
                   None \<Rightarrow> chat_fallback
                 | Some t \<Rightarrow> if t = [] then chat_fallback else t),
           (w', log @ [chat_request plan history newMessage]))"
    using assms
    by (simp add: sendProjectChat_attempt_def generateContent_def split: option.split)
  then show ?thesis
    unfolding sendProjectChat_def retryOperation_default_def
    by (rule retryOperation_success)
qed

theorem sendProjectChat_fallback_witness:
  \<open>fst (sendProjectChat (replying (Some [])) (JObject []) [] ''Which primer?'' (((), []), [])) =
     Inr ''I'm having a little trouble connecting right now. Could you ask that again?''
   \<and> fst (sendProjectChat (replying None) (JObject []) [] ''Which primer?'' (((), []), [])) =
     Inr ''I'm having a little trouble connecting right now. Could you ask that again?''
   \<and> fst (sendProjectChat (replying (Some ''Use a shellac primer.'')) (JObject [])
          [\<lparr>role = User, text = ''Hi''\<rparr>, \<lparr>role = Model, text = ''Hello''\<rparr>] ''Which primer?''
          (((), []), [])) =
     Inr ''Use a shellac primer.''\<close>
  using sendProjectChat_fallback [of "replying (Some [])" "JObject []" "[]" "''Which primer?''" "()" _ "()" "[]" "[]"]
    sendProjectChat_fallback [of "replying None" "JObject []" "[]" "''Which primer?''" "()" _ "()" "[]" "[]"]
    sendProjectChat_fallback [of "replying (Some ''Use a shellac primer.'')" "JObject []"
          "[\<lparr>role = User, text = ''Hi''\<rparr>, \<lparr>role = Model, text = ''Hello''\<rparr>]"
          "''Which primer?''" "()" _ "()" "[]" "[]"]
  by (simp add: replying_def chat_fallback_def)

section \<open>Claims about the batches\<close>

declare inspiration_loop.simps [simp del]
declare surprise_loop.simps [simp del]

lemma retryOperation_result:
  "retryOperation operation r d st = (res, st') \<Longrightarrow> \<exists>s. fst (operation s) = res"
proof (induction operation r d st rule: retryOperation.induct)
  case (1 operation retries baseDelay st)
  obtain x s' where op: "operation (fst st) = (x, s')" by (cases "operation (fst st)")
  show ?case
  proof (cases x)
    case (Inr v)
    with op "1.prems" have "res = Inr v"
      by (subst (asm) retryOperation.simps) simp
    with op Inr show ?thesis by (metis fst_conv)
  next
    case (Inl e)
    show ?thesis
    proof (cases "0 < retries \<and> isRateLimit e")
      case True
      with op Inl "1.prems"
      have "retryOperation operation (retries - 1) (baseDelay * 2)
              (wait baseDelay (s', snd st)) = (res, st')"
        by (subst (asm) retryOperation.simps) simp
      with "1.IH" [OF op [symmetric] Inl True] show ?thesis by blast
    next
      case False
      with op Inl "1.prems" have "res = Inl e"
        by (subst (asm) retryOperation.simps) auto
      with op Inl show ?thesis by (metis fst_conv)
    qed
  qed
qed

lemma first_inline_data_nonempty: "first_inline_data ps \<noteq> Some []"
  by (induction ps) (auto split: option.splits)

lemma generateSingleImage_nonempty:
  "generateSingleImage svc style category description viewContext referenceUrl st = (Inr img, st')
   \<Longrightarrow> img \<noteq> Some []"
proof
  assume g: "generateSingleImage svc style category description viewContext referenceUrl st =
    (Inr img, st')" and e: "img = Some []"
  from g obtain s where
    "fst (generateSingleImage_attempt svc style category description viewContext referenceUrl s)
       = Inr img"
    unfolding generateSingleImage_def retryOperation_default_def
    by (blast dest: retryOperation_result)
  with e show False
    by (auto simp: generateSingleImage_attempt_def first_inline_data_nonempty
        split: prod.splits sum.splits option.splits if_splits)
qed

lemma enumerate_drop_step:
  "i < length xs \<Longrightarrow> enumerate i (drop i xs) = (i, xs ! i) # enumerate (Suc i) (drop (Suc i) xs)"
  by (simp add: Cons_nth_drop_Suc [symmetric])

lemma inspiration_loop_run_each:
  "inspiration_loop svc style category description views references i results st =
   (case run_each (view_call svc style category description references)
           (enumerate i (drop i views)) st of
      (outcomes, st') \<Rightarrow>
        (results @ map snd (successful (zip (drop i views) outcomes)), st'))"
proof (induction svc style category description views references i results st
    rule: inspiration_loop.induct)
  case (1 svc style category description views references i results st)
  show ?case
  proof (cases "i < length views")
    case False
    then show ?thesis by (subst inspiration_loop.simps) simp
  next
    case True
    let ?st = "if 0 < i then wait 2000 st else st"
    obtain r st1 where call:
      "generateSingleImage svc style category description (views ! i)
         (reference_at references i) ?st = (r, st1)"
      by (cases "generateSingleImage svc style category description (views ! i)
         (reference_at references i) ?st")
    have vc: "view_call svc style category description references (i, views ! i) st = (r, st1)"
      using call by (simp add: view_call_def)
    have d: "drop i views = views ! i # drop (Suc i) views"
      using True by (simp add: Cons_nth_drop_Suc)
    show ?thesis
    proof (cases r)
      case (Inl e)
      have "inspiration_loop svc style category description views references i results st =
            inspiration_loop svc style category description views references (Suc i) results st1"
        using True call Inl by (subst inspiration_loop.simps) simp
      also note "1.IH"(1) [OF True call [symmetric] Inl]
      finally show ?thesis
        using True vc Inl call d by (simp add: enumerate_drop_step split: prod.split)
    next
      case (Inr img)
      let ?results = "case img of Some d \<Rightarrow> if d \<noteq> [] then results @ [d] else results
                      | None \<Rightarrow> results"
      have "inspiration_loop svc style category description views references i results st =
            inspiration_loop svc style category description views references (Suc i) ?results st1"
        using True call Inr by (subst inspiration_loop.simps) simp
      also note "1.IH"(2) [OF True call [symmetric] Inr]
      finally show ?thesis
        using True vc Inr call d generateSingleImage_nonempty [OF call [unfolded Inr]]
        by (simp add: enumerate_drop_step split: prod.split option.split)
    qed
  qed
qed


lemma run_each_length: "length (fst (run_each f xs s)) = length xs"
proof (induction xs arbitrary: s)
  case Nil
  show ?case by simp
next
  case (Cons a xs)
  obtain r s1 where f: "f a s = (r, s1)" by (cases "f a s")
  obtain rs s2 where rs: "run_each f xs s1 = (rs, s2)" by (cases "run_each f xs s1")
  from Cons.IH [of s1] rs have "length rs = length xs" by simp
  with f rs show ?case by simp
qed

lemma generateInspirationImages_run_each:
  "generateInspirationImages svc style category description customViews ((w, log), ws) =
     (let views = (case customViews of Some vs \<Rightarrow> vs | None \<Rightarrow> default_views);
          references = take 3 (found_urls svc style category description 3 w @ replicate 3 []);
          st1 = ((snd (svc (reference_request style category description 3) w),
                  log @ [reference_request style category description 3]), ws)
      in case run_each (view_call svc style category description references)
                (enumerate 0 views) st1 of
           (outcomes, st2) \<Rightarrow> (Inr (map snd (successful (zip views outcomes))), st2))
   \<and> length (fst (run_each
         (view_call svc style category description
            (take 3 (found_urls svc style category description 3 w @ replicate 3 [])))
         (enumerate 0 (case customViews of Some vs \<Rightarrow> vs | None \<Rightarrow> default_views))
         ((snd (svc (reference_request style category description 3) w),
           log @ [reference_request style category description 3]), ws))) =
       length (case customViews of Some vs \<Rightarrow> vs | None \<Rightarrow> default_views)"
proof -
  have refs: "getRealWorldReferences svc style category description 3 ((w, log), ws) =
           (Inr (take 3 (found_urls svc style category description 3 w @ replicate 3 [])),
            ((snd (svc (reference_request style category description 3) w),
              log @ [reference_request style category description 3]), ws))"
    using getRealWorldReferences_returns [of 3 svc style category description w log ws]
    by simp
  show ?thesis
    unfolding generateInspirationImages_def refs
    by (simp add: inspiration_loop_run_each [where i = 0, simplified] Let_def run_each_length
        split: prod.split)
qed

text \<open>
  C5. For every list of requested views and every behaviour of the service,
  \<open>generateInspirationImages\<close> makes one call of \<open>generateSingleImage\<close> per view, in order,
  and returns exactly the images of the calls that produced one, in the order of the
  views: a call that throws (a rate-limit error that outlived its retries) or resolves
  with \<open>null\<close> (no image, or any other error) contributes nothing and removes nothing.
  With three views of which the second fails with an error that is not a rate limit, the
  result is the first and the third image.
\<close>

theorem generateInspirationImages_keeps_successes:
  "generateInspirationImages svc style category description customViews ((w, log), ws) =
     (let views = (case customViews of Some vs \<Rightarrow> vs | None \<Rightarrow> default_views);
          references = take 3 (found_urls svc style category description 3 w @ replicate 3 []);
          st1 = ((snd (svc (reference_request style category description 3) w),
                  log @ [reference_request style category description 3]), ws)
      in case run_each (view_call svc style category description references)
                (enumerate 0 views) st1 of
           (outcomes, st2) \<Rightarrow> (Inr (map snd (successful (zip views outcomes))), st2))
   \<and> length (fst (run_each
         (view_call svc style category description
            (take 3 (found_urls svc style category description 3 w @ replicate 3 [])))
         (enumerate 0 (case customViews of Some vs \<Rightarrow> vs | None \<Rightarrow> default_views))
         ((snd (svc (reference_request style category description 3) w),
           log @ [reference_request style category description 3]), ws))) =
       length (case customViews of Some vs \<Rightarrow> vs | None \<Rightarrow> default_views)"
  by (rule generateInspirationImages_run_each)

theorem generateInspirationImages_keeps_successes_witness:
  "generateInspirationImages
     (picture_service (\<lambda>style view.
        if view = ''slightly angled view'' then Inl safety_error
        else Inr (Some (''image: '' @ view))))
     ''Japandi'' FurnitureFlipping (Some (JString ''oak dresser'')) None (((), []), []) =
   (Inr [''image: straight on view'', ''image: detail focused view''],
    (((), [reference_request ''Japandi'' FurnitureFlipping (Some (JString ''oak dresser'')) 3,
           image_request ''Japandi'' FurnitureFlipping (Some (JString ''oak dresser''))
             ''straight on view'' None,
           image_request ''Japandi'' FurnitureFlipping (Some (JString ''oak dresser''))
             ''slightly angled view'' None,
           image_request ''Japandi'' FurnitureFlipping (Some (JString ''oak dresser''))
             ''detail focused view'' None]),
     [2000, 2000]))"
  using generateInspirationImages_keeps_successes [of "picture_service (\<lambda>style view.
        if view = ''slightly angled view'' then Inl safety_error
        else Inr (Some (''image: '' @ view)))"
     "''Japandi''" FurnitureFlipping "Some (JString ''oak dresser'')" None "()" "[]" "[]"]
  by code_simp

lemma surprise_image_nonempty:
  "surprise_image svc category description style st = (Inr img, st') \<Longrightarrow> img \<noteq> Some []"
  by (auto simp: surprise_image_def split: prod.splits sum.splits
      dest: generateSingleImage_nonempty)

lemma surprise_loop_run_each:
  "surprise_loop svc styles category description i results st =
   (case run_each (style_call svc category description) (enumerate i (drop i styles)) st of
      (outcomes, st') \<Rightarrow> (results @ successful (zip (drop i styles) outcomes), st'))"
proof (induction svc styles category description i results st rule: surprise_loop.induct)
  case (1 svc styles category description i results st)
  show ?case
  proof (cases "i < length styles")
    case False
    then show ?thesis by (subst surprise_loop.simps) simp
  next
    case True
    let ?st = "if 0 < i then wait 3000 st else st"
    obtain r st1 where call:
      "surprise_image svc category description (styles ! i) ?st = (r, st1)"
      by (cases "surprise_image svc category description (styles ! i) ?st")
    have sc: "style_call svc category description (i, styles ! i) st = (r, st1)"
      using call by (simp add: style_call_def)
    have d: "drop i styles = styles ! i # drop (Suc i) styles"
      using True by (simp add: Cons_nth_drop_Suc)
    show ?thesis
    proof (cases r)
      case (Inl e)
      have "surprise_loop svc styles category description i results st =
            surprise_loop svc styles category description (Suc i) results st1"
        using True call Inl by (subst surprise_loop.simps) simp
      also note "1.IH"(1) [OF True call [symmetric] Inl]
      finally show ?thesis
        using True sc Inl d by (simp add: enumerate_drop_step split: prod.split)
    next
      case (Inr img)
      let ?results = "case img of
                        Some d \<Rightarrow> if d \<noteq> [] then results @ [(styles ! i, d)] else results
                      | None \<Rightarrow> results"
      have "surprise_loop svc styles category description i results st =
            surprise_loop svc styles category description (Suc i) ?results st1"
        using True call Inr by (subst surprise_loop.simps) simp
      also note "1.IH"(2) [OF True call [symmetric] Inr]
      finally show ?thesis
        using True sc Inr d surprise_image_nonempty [OF call [unfolded Inr]]
        by (simp add: enumerate_drop_step split: prod.split option.split)
    qed
  qed
qed

text \<open>
  C6. For every list of styles and every behaviour of the service,
  \<open>generateSurpriseImages\<close> makes one attempt per style, in order, and returns exactly the
  pairs of a style and its image for the attempts that produced an image, in the order of
  the styles: a style whose attempt throws or yields no image is left out, so the result
  may be shorter than the input. With five styles of which the third yields no image, the
  result has the four other styles.
\<close>

theorem generateSurpriseImages_keeps_successes:
  "generateSurpriseImages svc styles category description st =
     (case run_each (style_call svc category description) (enumerate 0 styles) st of
        (outcomes, st') \<Rightarrow> (successful (zip styles outcomes), st'))
   \<and> length (fst (run_each (style_call svc category description) (enumerate 0 styles) st)) =
       length styles"
  unfolding generateSurpriseImages_def
  by (simp add: surprise_loop_run_each [where i = 0, simplified] run_each_length)

theorem generateSurpriseImages_keeps_successes_witness:
  "fst (generateSurpriseImages
     (picture_service (\<lambda>style view.
        if style = ''Farmhouse'' then Inr None else Inr (Some (''image: '' @ style))))
     [''Japandi'', ''Transitional'', ''Farmhouse'', ''Organic Modern'', ''Mid-Century Modern'']
     RoomRefresh (Some (JString ''small bedroom'')) (((), []), [])) =
   [(''Japandi'', ''image: Japandi''), (''Transitional'', ''image: Transitional''),
    (''Organic Modern'', ''image: Organic Modern''),
    (''Mid-Century Modern'', ''image: Mid-Century Modern'')]
   \<and> snd (snd (generateSurpriseImages
     (picture_service (\<lambda>style view.
        if style = ''Farmhouse'' then Inr None else Inr (Some (''image: '' @ style))))
     [''Japandi'', ''Transitional'', ''Farmhouse'', ''Organic Modern'', ''Mid-Century Modern'']
     RoomRefresh (Some (JString ''small bedroom'')) (((), []), []))) =
   [3000, 3000, 3000, 3000]"
  using generateSurpriseImages_keeps_successes [of "picture_service (\<lambda>style view.
        if style = ''Farmhouse'' then Inr None else Inr (Some (''image: '' @ style)))"
     "[''Japandi'', ''Transitional'', ''Farmhouse'', ''Organic Modern'', ''Mid-Century Modern'']"
     RoomRefresh "Some (JString ''small bedroom'')" "(((), []), [])"]
  by code_simp

section \<open>Claims about plan generation\<close>

lemma conforms_PLAN_SCHEMA_populated:
  "conforms PLAN_SCHEMA v \<Longrightarrow> list_all (\<lambda>k. property v k \<noteq> None) plan_fields"
  by (cases v) (simp_all add: PLAN_SCHEMA_def property_def plan_fields_def)

lemma generateProjectPlan_attempt_response:
  assumes "svc (plan_request imageBase64 style category) w = (Inr response, w')"
  shows "generateProjectPlan_attempt JSON_parse svc imageBase64 style category (w, log) =
     ((case response_text response of
         None \<Rightarrow> Inl no_text_error
       | Some t \<Rightarrow> if t = [] then Inl no_text_error else JSON_parse t),
      (w', log @ [plan_request imageBase64 style category]))"
  using assms
  by (simp add: generateProjectPlan_attempt_def generateContent_def split: option.split)

lemma not_isRateLimit_no_text_error: "\<not> isRateLimit no_text_error"
  by (simp add: isRateLimit_def no_text_error_def)

text \<open>
  C7, as stated, fails in its second half: a response that is valid JSON but lacks
  required fields of the plan schema is not treated as a failure. Here the text has only
  \<open>styleSummary\<close>; the value is returned to the caller as a \<open>ProjectPlan\<close>, although it
  has no \<open>steps\<close> and does not match the schema.
\<close>

theorem generateProjectPlan_missing_field_counterexample:
  \<open>generateProjectPlan JSON_parse_plain (replying (Some ''{"styleSummary": "Warm oak"}''))
      ''/9j/4AAQ'' ''Japandi'' FurnitureFlipping (((), []), []) =
     (Inr (JObject [(''styleSummary'', JString ''Warm oak'')]),
      (((), [plan_request ''/9j/4AAQ'' ''Japandi'' FurnitureFlipping]), []))
   \<and> property (JObject [(''styleSummary'', JString ''Warm oak'')]) ''steps'' = None
   \<and> \<not> conforms PLAN_SCHEMA (JObject [(''styleSummary'', JString ''Warm oak'')])\<close>
  by code_simp

text \<open>
  C7, amended. When the service answers the plan request: if the response text is not
  empty and \<open>JSON.parse\<close> accepts it, the value it denotes is returned as the
  \<open>ProjectPlan\<close>, unvalidated, and if that value matches the plan schema then all eight
  fields are populated in it; if the response has no text or an empty one, the call
  fails with the error \<open>No text response received from Gemini.\<close>; and if \<open>JSON.parse\<close>
  throws an error that is not taken for a rate limit, the call fails with that error.
  In each case one request has been sent and nothing has been waited for.
\<close>

theorem generateProjectPlan_returns_what_parses:
  assumes "svc (plan_request imageBase64 style category) w = (Inr response, w')"
  shows
    "(response_text response = Some t \<and> t \<noteq> [] \<and> JSON_parse t = Inr v \<longrightarrow>
        generateProjectPlan JSON_parse svc imageBase64 style category ((w, log), ws) =
          (Inr v, ((w', log @ [plan_request imageBase64 style category]), ws))
        \<and> (conforms PLAN_SCHEMA v \<longrightarrow> list_all (\<lambda>k. property v k \<noteq> None) plan_fields))
     \<and> (response_text response = None \<or> response_text response = Some [] \<longrightarrow>
        generateProjectPlan JSON_parse svc imageBase64 style category ((w, log), ws) =
          (Inl no_text_error, ((w', log @ [plan_request imageBase64 style category]), ws)))
     \<and> (response_text response = Some t \<and> t \<noteq> [] \<and> JSON_parse t = Inl e \<and> \<not> isRateLimit e \<longrightarrow>
        generateProjectPlan JSON_parse svc imageBase64 style category ((w, log), ws) =
          (Inl e, ((w', log @ [plan_request imageBase64 style category]), ws)))"
proof -
  have a: "generateProjectPlan_attempt JSON_parse svc imageBase64 style category (w, log) =
     ((case response_text response of
         None \<Rightarrow> Inl no_text_error
       | Some t \<Rightarrow> if t = [] then Inl no_text_error else JSON_parse t),
      (w', log @ [plan_request imageBase64 style category]))"
    using assms by (rule generateProjectPlan_attempt_response)
  have ok: "generateProjectPlan JSON_parse svc imageBase64 style category ((w, log), ws) =
          (Inr v, ((w', log @ [plan_request imageBase64 style category]), ws))"
    if "response_text response = Some t" "t \<noteq> []" "JSON_parse t = Inr v"
    unfolding generateProjectPlan_def retryOperation_default_def
    by (rule retryOperation_success) (use a that in simp)
  have no_text: "generateProjectPlan JSON_parse svc imageBase64 style category ((w, log), ws) =
          (Inl no_text_error, ((w', log @ [plan_request imageBase64 style category]), ws))"
    if "response_text response = None \<or> response_text response = Some []"
    unfolding generateProjectPlan_def retryOperation_default_def
    by (rule retryOperation_throw) (use a that not_isRateLimit_no_text_error in auto)
  have bad: "generateProjectPlan JSON_parse svc imageBase64 style category ((w, log), ws) =
          (Inl e, ((w', log @ [plan_request imageBase64 style category]), ws))"
    if "response_text response = Some t" "t \<noteq> []" "JSON_parse t = Inl e" "\<not> isRateLimit e"
    unfolding generateProjectPlan_def retryOperation_default_def
    by (rule retryOperation_throw) (use a that in auto)
  show ?thesis
    using ok no_text bad conforms_PLAN_SCHEMA_populated by blast
qed

theorem generateProjectPlan_returns_what_parses_witness:
  \<open>generateProjectPlan JSON_parse_plain (replying (Some plan_text))
      ''/9j/4AAQ'' ''Japandi'' FurnitureFlipping (((), []), []) =
     (Inr plan_value, (((), [plan_request ''/9j/4AAQ'' ''Japandi'' FurnitureFlipping]), []))
   \<and> list_all (\<lambda>k. property plan_value k \<noteq> None) plan_fields
   \<and> generateProjectPlan JSON_parse_plain (replying (Some []))
      ''/9j/4AAQ'' ''Japandi'' FurnitureFlipping (((), []), []) =
     (Inl no_text_error, (((), [plan_request ''/9j/4AAQ'' ''Japandi'' FurnitureFlipping]), []))
   \<and> generateProjectPlan JSON_parse_plain (replying (Some ''I cannot help with that''))
      ''/9j/4AAQ'' ''Japandi'' FurnitureFlipping (((), []), []) =
     (Inl SyntaxError, (((), [plan_request ''/9j/4AAQ'' ''Japandi'' FurnitureFlipping]), []))\<close>
proof -
  have p: "JSON_parse_plain plan_text = Inr plan_value"
    by code_simp
  have c: "conforms PLAN_SCHEMA plan_value"
    by code_simp
  have q: "JSON_parse_plain ''I cannot help with that'' = Inl SyntaxError"
    by code_simp
  have r: "\<not> isRateLimit SyntaxError"
    by code_simp
  have n: "plan_text \<noteq> []"
    by code_simp
  show ?thesis
    using
      generateProjectPlan_returns_what_parses [of "replying (Some plan_text)" "''/9j/4AAQ''" "''Japandi''" FurnitureFlipping "()"
        _ "()" plan_text JSON_parse_plain plan_value "[]" "[]"]
      generateProjectPlan_returns_what_parses [of "replying (Some [])" "''/9j/4AAQ''" "''Japandi''" FurnitureFlipping "()"
        _ "()" _ JSON_parse_plain _ "[]" "[]"]
      generateProjectPlan_returns_what_parses [of "replying (Some ''I cannot help with that'')" "''/9j/4AAQ''" "''Japandi''"
        FurnitureFlipping "()" _ "()" "''I cannot help with that''" JSON_parse_plain _ "[]" "[]"
        SyntaxError]
      p c q r n
    by (simp add: replying_def)
qed

section \<open>Claims about the plan orchestration\<close>

lemma requested_views_append:
  "requested_views (xs @ ys) = requested_views xs @ requested_views ys"
  by (induction xs) (auto split: prompt.splits)

lemma requested_views_image_requests:
  "requested_views (replicate n (image_request style category description view ref)) =
   replicate n view"
  by (induction n) (auto simp: image_request_def)

lemma requested_views_reference_request:
  "requested_views [reference_request style category description count] = []"
  by (simp add: reference_request_def)

lemma generateSingleImage_attempt_log:
  "snd (snd (generateSingleImage_attempt svc style category description view ref s)) =
   snd s @ [image_request style category description view ref]"
  by (auto simp: generateSingleImage_attempt_def generateContent_def
      split: prod.splits sum.splits option.splits)

lemma retryOperation_log:
  assumes "\<And>s. snd (snd (operation s)) = snd s @ [req]"
  shows "retryOperation operation r d (s, ws) = (res, (s', ws')) \<Longrightarrow>
         \<exists>n. 1 \<le> n \<and> n \<le> nat r + 1 \<and> snd s' = snd s @ replicate n req"
proof (induction "nat r" arbitrary: r d s ws)
  case 0
  obtain x s1 where op: "operation s = (x, s1)" by (cases "operation s")
  have "retryOperation operation r d (s, ws) = (x, (s1, ws))"
  proof (cases x)
    case (Inl e)
    from op [unfolded Inl] 0(1) show ?thesis
      unfolding Inl by (intro retryOperation_throw) auto
  next
    case (Inr v)
    from op [unfolded Inr] show ?thesis
      unfolding Inr by (rule retryOperation_success)
  qed
  with "0.prems" have "s' = s1" by simp
  with assms [of s] op have "snd s' = snd s @ replicate 1 req" by simp
  then show ?case by (intro exI [of _ 1]) simp
next
  case (Suc m)
  obtain x s1 where op: "operation s = (x, s1)" by (cases "operation s")
  from assms [of s] op have log1: "snd s1 = snd s @ [req]" by simp
  show ?case
  proof (cases "\<exists>e. x = Inl e \<and> isRateLimit e")
    case False
    have "retryOperation operation r d (s, ws) = (x, (s1, ws))"
    proof (cases x)
      case (Inl e)
      from op [unfolded Inl] False Inl show ?thesis
        unfolding Inl by (intro retryOperation_throw) auto
    next
      case (Inr v)
      from op [unfolded Inr] show ?thesis
        unfolding Inr by (rule retryOperation_success)
    qed
    with Suc.prems have "s' = s1" by simp
    with log1 have "snd s' = snd s @ replicate 1 req" by simp
    then show ?thesis by (intro exI [of _ 1]) simp
  next
    case True
    then obtain e where e: "x = Inl e" "isRateLimit e" by blast
    have "retryOperation operation r d (s, ws) =
          retryOperation operation (r - 1) (d * 2) (s1, ws @ [d])"
      using op [unfolded e(1)] e(2) Suc.hyps(2) by (intro retryOperation_retry) auto
    with Suc.prems have rest:
      "retryOperation operation (r - 1) (d * 2) (s1, ws @ [d]) = (res, (s', ws'))" by simp
    have "m = nat (r - 1)" using Suc.hyps(2) by simp
    from Suc.hyps(1) [OF this rest] obtain n where
      n: "1 \<le> n" "n \<le> nat (r - 1) + 1" "snd s' = snd s1 @ replicate n req" by blast
    from n(3) log1 have "snd s' = snd s @ replicate (Suc n) req"
      by (simp add: replicate_app_Cons_same)
    with n(1,2) Suc.hyps(2) show ?thesis by (intro exI [of _ "Suc n"]) auto
  qed
qed

lemma generateSingleImage_log:
  assumes "generateSingleImage svc style category description view ref st = (res, st')"
  shows "\<exists>n. 1 \<le> n \<and> n \<le> 4 \<and>
     snd (fst st') = snd (fst st) @ replicate n (image_request style category description view ref)"
proof -
  obtain s ws s' ws' where st: "st = (s, ws)" "st' = (s', ws')"
    by (cases st, cases st')
  from assms [unfolded st generateSingleImage_def retryOperation_default_def]
    retryOperation_log [of "generateSingleImage_attempt svc style category description view ref"
      "image_request style category description view ref" 3 2000 s ws res s' ws',
      OF generateSingleImage_attempt_log]
  show ?thesis unfolding st by auto
qed

lemma fst_wait: "fst (wait ms st) = fst st"
  by (simp add: wait_def)

lemma run_each_view_call_log:
  "run_each (view_call svc style category description references) (enumerate i views) st
     = (outs, st') \<Longrightarrow>
   \<exists>new ns. snd (fst st') = snd (fst st) @ new \<and> length ns = length views
      \<and> list_all (\<lambda>n. 1 \<le> n \<and> n \<le> 4) ns
      \<and> requested_views new = concat (map2 replicate ns views)"
proof (induction views arbitrary: i st outs st')
  case Nil
  then show ?case by (intro exI [of _ "[]"]) simp
next
  case (Cons v views)
  obtain r st1 where c: "view_call svc style category description references (i, v) st = (r, st1)"
    by (cases "view_call svc style category description references (i, v) st")
  obtain rs st2 where rest:
    "run_each (view_call svc style category description references) (enumerate (Suc i) views) st1
       = (rs, st2)"
    by (cases "run_each (view_call svc style category description references)
        (enumerate (Suc i) views) st1")
  from Cons.prems c rest have st2: "st' = st2" by simp
  from c generateSingleImage_log
    [of svc style category description v "reference_at references i"
      "if 0 < i then wait 2000 st else st" r st1]
  obtain n where n: "1 \<le> n" "n \<le> 4"
    "snd (fst st1) = snd (fst st) @
       replicate n (image_request style category description v (reference_at references i))"
    by (auto simp: view_call_def fst_wait split: if_splits)
  from Cons.IH [OF rest] obtain new ns where
    new: "snd (fst st2) = snd (fst st1) @ new" "length ns = length views"
      "list_all (\<lambda>n. 1 \<le> n \<and> n \<le> 4) ns"
      "requested_views new = concat (map2 replicate ns views)" by blast
  show ?case
    apply (rule exI [of _ "replicate n (image_request style category description v
        (reference_at references i)) @ new"])
    apply (rule exI [of _ "n # ns"])
    using n new st2
    by (simp add: requested_views_append requested_views_image_requests)
qed

lemma length_successful: "length (successful xs) \<le> length xs"
  by (induction xs rule: successful.induct) auto

lemma generateInspirationImages_log:
  assumes "generateInspirationImages svc style category description customViews st = (res, st')"
  shows "\<exists>images new ns. res = Inr images
      \<and> length images \<le> length (case customViews of Some vs \<Rightarrow> vs | None \<Rightarrow> default_views)
      \<and> snd (fst st') = snd (fst st) @ new
      \<and> length ns = length (case customViews of Some vs \<Rightarrow> vs | None \<Rightarrow> default_views)
      \<and> list_all (\<lambda>n. 1 \<le> n \<and> n \<le> 4) ns
      \<and> requested_views new =
          concat (map2 replicate ns (case customViews of Some vs \<Rightarrow> vs | None \<Rightarrow> default_views))"
proof -
  obtain w log ws where st: "st = ((w, log), ws)" by (cases st) auto
  let ?views = "case customViews of Some vs \<Rightarrow> vs | None \<Rightarrow> default_views"
  let ?refs = "take 3 (found_urls svc style category description 3 w @ replicate 3 [])"
  let ?req = "reference_request style category description 3"
  let ?st1 = "((snd (svc ?req w), log @ [?req]), ws)"
  obtain outs st2 where run:
    "run_each (view_call svc style category description ?refs) (enumerate 0 ?views) ?st1
       = (outs, st2)"
    by (cases "run_each (view_call svc style category description ?refs)
        (enumerate 0 ?views) ?st1")
  have g: "generateInspirationImages svc style category description customViews ((w, log), ws) =
        (Inr (map snd (successful (zip ?views outs))), st2)"
    using generateInspirationImages_run_each
      [of svc style category description customViews w log ws] run
    by (simp add: Let_def)
  with assms st have res: "res = Inr (map snd (successful (zip ?views outs)))" and st2: "st' = st2"
    by simp_all
  have len: "length (map snd (successful (zip ?views outs))) \<le> length ?views"
    using length_successful [of "zip ?views outs"] by simp
  from run_each_view_call_log [OF run] obtain new ns where
    new: "snd (fst st2) = (log @ [?req]) @ new" "length ns = length ?views"
      "list_all (\<lambda>n. 1 \<le> n \<and> n \<le> 4) ns"
      "requested_views new = concat (map2 replicate ns ?views)" by auto
  show ?thesis
    apply (rule exI [of _ "map snd (successful (zip ?views outs))"])
    apply (rule exI [of _ "?req # new"])
    apply (rule exI [of _ ns])
    using res len new st st2
    by (simp add: reference_request_def)
qed


lemma two_counts:
  assumes "length ns = length [a, b]" and "list_all P ns"
  shows "\<exists>n1 n2. P n1 \<and> P n2 \<and> concat (map2 replicate ns [a, b]) = replicate n1 a @ replicate n2 b"
proof -
  from assms(1) obtain n1 n2 where "ns = [n1, n2]"
    by (cases ns; cases "tl ns") auto
  with assms(2) show ?thesis by auto
qed

lemma three_counts:
  assumes "length ns = length [a, b, c]" and "list_all P ns"
  shows "\<exists>n1 n2 n3. P n1 \<and> P n2 \<and> P n3 \<and>
     concat (map2 replicate ns [a, b, c]) = replicate n1 a @ replicate n2 b @ replicate n3 c"
proof -
  from assms(1) obtain n1 n2 n3 where "ns = [n1, n2, n3]"
    by (cases ns; cases "tl ns"; cases "tl (tl ns)") auto
  with assms(2) show ?thesis by auto
qed

text \<open>
  C9. Let \<open>generateFullPlan\<close> run with an image selected. When plan generation succeeds
  and a truthy initial image is supplied, \<open>generateInspirationImages\<close> is called with the
  two views \<open>slightly angled view\<close> and \<open>detail focused view\<close>: the image requests it
  sends are for these two views, in this order, each between one and four times (the
  retries), and the result holds the plan and the initial image followed by the images
  obtained, at most two. When no initial image is supplied, \<open>generateInspirationImages\<close>
  is called without custom views and the image requests are for the three views
  \<open>straight on view\<close>, \<open>slightly angled view\<close>, \<open>detail focused view\<close>. When plan
  generation fails, the operation ends there: the step is \<open>error\<close>, the result data is
  left as it was, and the state of the service is the one plan generation left, so no
  image was requested.
\<close>

theorem generateFullPlan_orchestration:
  assumes "selectedImage a = Some img" and "img \<noteq> []"
  shows
    "(generateProjectPlan JSON_parse svc img style (selectedCategory a) st = (Inr p, st1)
        \<and> itemDescription_of p = Inr description
        \<and> initialImage = Some initial \<and> initial \<noteq> [] \<longrightarrow>
      (\<exists>additional st2 new n1 n2.
         generateInspirationImages svc style (selectedCategory a) description
             (Some [''slightly angled view'', ''detail focused view'']) st1 = (Inr additional, st2)
         \<and> generateFullPlan JSON_parse svc style initialImage (a, st) =
             (a\<lparr>step := Results, errorMessage := [],
                resultData := Some (Standard p (initial # additional))\<rparr>, st2)
         \<and> length additional \<le> 2
         \<and> snd (fst st2) = snd (fst st1) @ new
         \<and> (1 \<le> n1 \<and> n1 \<le> 4) \<and> (1 \<le> n2 \<and> n2 \<le> 4)
         \<and> requested_views new =
             replicate n1 ''slightly angled view'' @ replicate n2 ''detail focused view''))
     \<and> (generateProjectPlan JSON_parse svc img style (selectedCategory a) st = (Inr p, st1)
        \<and> itemDescription_of p = Inr description
        \<and> (initialImage = None \<or> initialImage = Some []) \<longrightarrow>
      (\<exists>images st2 new n1 n2 n3.
         generateInspirationImages svc style (selectedCategory a) description None st1 =
             (Inr images, st2)
         \<and> generateFullPlan JSON_parse svc style initialImage (a, st) =
             (a\<lparr>step := Results, errorMessage := [],
                resultData := Some (Standard p images)\<rparr>, st2)
         \<and> length images \<le> 3
         \<and> snd (fst st2) = snd (fst st1) @ new
         \<and> (1 \<le> n1 \<and> n1 \<le> 4) \<and> (1 \<le> n2 \<and> n2 \<le> 4) \<and> (1 \<le> n3 \<and> n3 \<le> 4)
         \<and> requested_views new =
             replicate n1 ''straight on view'' @ replicate n2 ''slightly angled view''
             @ replicate n3 ''detail focused view''))
     \<and> (generateProjectPlan JSON_parse svc img style (selectedCategory a) st = (Inl e, st1) \<longrightarrow>
         generateFullPlan JSON_parse svc style initialImage (a, st) =
           (show_error (a\<lparr>step := Analyzing, errorMessage := []\<rparr>) e, st1)
         \<and> step (fst (generateFullPlan JSON_parse svc style initialImage (a, st))) = Error
         \<and> resultData (fst (generateFullPlan JSON_parse svc style initialImage (a, st))) =
             resultData a)"
proof (intro conjI impI)
  assume h: "generateProjectPlan JSON_parse svc img style (selectedCategory a) st = (Inr p, st1)
        \<and> itemDescription_of p = Inr description
        \<and> initialImage = Some initial \<and> initial \<noteq> []"
  let ?views = "[''slightly angled view'', ''detail focused view'']"
  obtain res st2 where g:
    "generateInspirationImages svc style (selectedCategory a) description (Some ?views) st1 =
       (res, st2)"
    by (cases "generateInspirationImages svc style (selectedCategory a) description
        (Some ?views) st1")
  from generateInspirationImages_log [OF g] obtain images new ns where
    l: "res = Inr images" "length images \<le> length ?views"
      "snd (fst st2) = snd (fst st1) @ new" "length ns = length ?views"
      "list_all (\<lambda>n. 1 \<le> n \<and> n \<le> 4) ns"
      "requested_views new = concat (map2 replicate ns ?views)"
    by auto
  from two_counts [OF l(4,5)] l(6) obtain n1 n2 where
    n: "1 \<le> n1 \<and> n1 \<le> 4" "1 \<le> n2 \<and> n2 \<le> 4"
      "requested_views new =
         replicate n1 ''slightly angled view'' @ replicate n2 ''detail focused view''"
    by auto
  have full: "generateFullPlan JSON_parse svc style initialImage (a, st) =
     (a\<lparr>step := Results, errorMessage := [],
        resultData := Some (Standard p (initial # images))\<rparr>, st2)"
    using assms h g l(1) by (simp add: generateFullPlan_def show_results_def)
  show "\<exists>additional st2 new n1 n2.
         generateInspirationImages svc style (selectedCategory a) description
             (Some [''slightly angled view'', ''detail focused view'']) st1 = (Inr additional, st2)
         \<and> generateFullPlan JSON_parse svc style initialImage (a, st) =
             (a\<lparr>step := Results, errorMessage := [],
                resultData := Some (Standard p (initial # additional))\<rparr>, st2)
         \<and> length additional \<le> 2
         \<and> snd (fst st2) = snd (fst st1) @ new
         \<and> (1 \<le> n1 \<and> n1 \<le> 4) \<and> (1 \<le> n2 \<and> n2 \<le> 4)
         \<and> requested_views new =
             replicate n1 ''slightly angled view'' @ replicate n2 ''detail focused view''"
    apply (rule exI [of _ images], rule exI [of _ st2], rule exI [of _ new])
    apply (rule exI [of _ n1], rule exI [of _ n2])
    using g l(1,2,3) n full by simp
next
  assume h: "generateProjectPlan JSON_parse svc img style (selectedCategory a) st = (Inr p, st1)
        \<and> itemDescription_of p = Inr description
        \<and> (initialImage = None \<or> initialImage = Some [])"
  obtain res st2 where g:
    "generateInspirationImages svc style (selectedCategory a) description None st1 = (res, st2)"
    by (cases "generateInspirationImages svc style (selectedCategory a) description None st1")
  from generateInspirationImages_log [OF g] obtain images new ns where
    l: "res = Inr images" "length images \<le> length default_views"
      "snd (fst st2) = snd (fst st1) @ new" "length ns = length default_views"
      "list_all (\<lambda>n. 1 \<le> n \<and> n \<le> 4) ns"
      "requested_views new = concat (map2 replicate ns default_views)"
    by auto
  from three_counts [OF l(4,5) [unfolded default_views_def]] l(6) obtain n1 n2 n3 where
    n: "1 \<le> n1 \<and> n1 \<le> 4" "1 \<le> n2 \<and> n2 \<le> 4" "1 \<le> n3 \<and> n3 \<le> 4"
      "requested_views new =
         replicate n1 ''straight on view'' @ replicate n2 ''slightly angled view''
         @ replicate n3 ''detail focused view''"
    unfolding default_views_def by auto
  have full: "generateFullPlan JSON_parse svc style initialImage (a, st) =
     (a\<lparr>step := Results, errorMessage := [], resultData := Some (Standard p images)\<rparr>, st2)"
    using assms h g l(1) by (auto simp: generateFullPlan_def show_results_def)
  show "\<exists>images st2 new n1 n2 n3.
         generateInspirationImages svc style (selectedCategory a) description None st1 =
             (Inr images, st2)
         \<and> generateFullPlan JSON_parse svc style initialImage (a, st) =
             (a\<lparr>step := Results, errorMessage := [],
                resultData := Some (Standard p images)\<rparr>, st2)
         \<and> length images \<le> 3
         \<and> snd (fst st2) = snd (fst st1) @ new
         \<and> (1 \<le> n1 \<and> n1 \<le> 4) \<and> (1 \<le> n2 \<and> n2 \<le> 4) \<and> (1 \<le> n3 \<and> n3 \<le> 4)
         \<and> requested_views new =
             replicate n1 ''straight on view'' @ replicate n2 ''slightly angled view''
             @ replicate n3 ''detail focused view''"
    apply (rule exI [of _ images], rule exI [of _ st2], rule exI [of _ new])
    apply (rule exI [of _ n1], rule exI [of _ n2], rule exI [of _ n3])
    using g l(1,2,3) n full by (simp add: default_views_def)
next
  assume h: "generateProjectPlan JSON_parse svc img style (selectedCategory a) st = (Inl e, st1)"
  show "generateFullPlan JSON_parse svc style initialImage (a, st) =
           (show_error (a\<lparr>step := Analyzing, errorMessage := []\<rparr>) e, st1)"
    using assms h by (simp add: generateFullPlan_def)
  then show "step (fst (generateFullPlan JSON_parse svc style initialImage (a, st))) = Error"
    by (simp add: show_error_def)
  show "resultData (fst (generateFullPlan JSON_parse svc style initialImage (a, st))) =
             resultData a"
    using assms h by (simp add: generateFullPlan_def show_error_def)
qed

theorem generateFullPlan_orchestration_witness:
  "generateFullPlan JSON_parse_plain (plan_and_pictures (Some plan_text) pictures) ''Japandi''
      (Some ''image: chosen'') (app0, (((), []), [])) =
     (app0\<lparr>step := Results,
        resultData := Some (Standard plan_value
          [''image: chosen'', ''image: slightly angled view'', ''image: detail focused view''])\<rparr>,
      (((), [plan_request ''/9j/4AAQ'' ''Japandi'' FurnitureFlipping,
             reference_request ''Japandi'' FurnitureFlipping (Some (JString ''oak dresser'')) 3,
             image_request ''Japandi'' FurnitureFlipping (Some (JString ''oak dresser''))
               ''slightly angled view'' None,
             image_request ''Japandi'' FurnitureFlipping (Some (JString ''oak dresser''))
               ''detail focused view'' None]),
       [2000]))
   \<and> fst (generateFullPlan JSON_parse_plain (plan_and_pictures (Some plan_text) pictures)
          ''Japandi'' None (app0, (((), []), []))) =
     app0\<lparr>step := Results,
        resultData := Some (Standard plan_value
          [''image: straight on view'', ''image: slightly angled view'',
           ''image: detail focused view''])\<rparr>
   \<and> generateFullPlan JSON_parse_plain (plan_and_pictures None pictures) ''Japandi''
      (Some ''image: chosen'') (app0, (((), []), [])) =
     (app0\<lparr>step := Error, errorMessage := ''No text response received from Gemini.''\<rparr>,
      (((), [plan_request ''/9j/4AAQ'' ''Japandi'' FurnitureFlipping]), []))"
proof -
  let ?svc = "plan_and_pictures (Some plan_text) pictures"
  let ?st1 = "(((), [plan_request ''/9j/4AAQ'' ''Japandi'' FurnitureFlipping]), [])
              :: unit state"
  let ?d = "Some (JString ''oak dresser'')"
  have sel: "selectedImage app0 = Some ''/9j/4AAQ''" "''/9j/4AAQ'' \<noteq> []"
    by (simp_all add: app0_def)
  have cat: "selectedCategory app0 = FurnitureFlipping"
    by (simp add: app0_def)
  have gp: "generateProjectPlan JSON_parse_plain ?svc ''/9j/4AAQ'' ''Japandi''
              (selectedCategory app0) (((), []), []) = (Inr plan_value, ?st1)"
    by code_simp
  have d: "itemDescription_of plan_value = Inr ?d"
    by code_simp
  have two: "generateInspirationImages ?svc ''Japandi'' (selectedCategory app0) ?d
               (Some [''slightly angled view'', ''detail focused view'']) ?st1 =
     (Inr [''image: slightly angled view'', ''image: detail focused view''],
      (((), [plan_request ''/9j/4AAQ'' ''Japandi'' FurnitureFlipping,
             reference_request ''Japandi'' FurnitureFlipping ?d 3,
             image_request ''Japandi'' FurnitureFlipping ?d ''slightly angled view'' None,
             image_request ''Japandi'' FurnitureFlipping ?d ''detail focused view'' None]),
       [2000]))"
    by code_simp
  have three: "fst (generateInspirationImages ?svc ''Japandi'' (selectedCategory app0) ?d
               None ?st1) =
     Inr [''image: straight on view'', ''image: slightly angled view'',
          ''image: detail focused view'']"
    by code_simp
  have fail: "generateProjectPlan JSON_parse_plain (plan_and_pictures None pictures)
                ''/9j/4AAQ'' ''Japandi'' (selectedCategory app0) (((), []), []) =
              (Inl no_text_error, ?st1)"
    by code_simp
  note t = generateFullPlan_orchestration [OF sel]
  have a: "generateFullPlan JSON_parse_plain ?svc ''Japandi'' (Some ''image: chosen'')
             (app0, (((), []), [])) =
     (app0\<lparr>step := Results,
        resultData := Some (Standard plan_value
          [''image: chosen'', ''image: slightly angled view'', ''image: detail focused view''])\<rparr>,
      (((), [plan_request ''/9j/4AAQ'' ''Japandi'' FurnitureFlipping,
             reference_request ''Japandi'' FurnitureFlipping ?d 3,
             image_request ''Japandi'' FurnitureFlipping ?d ''slightly angled view'' None,
             image_request ''Japandi'' FurnitureFlipping ?d ''detail focused view'' None]),
       [2000]))"
    using t [where JSON_parse = JSON_parse_plain and svc = ?svc and style = "''Japandi''"
        and st = "(((), []), [])" and p = plan_value and ?st1.0 = ?st1 and description = ?d
        and initialImage = "Some ''image: chosen''" and initial = "''image: chosen''"]
      gp d two
    by (auto simp: app0_def)
  have b: "fst (generateFullPlan JSON_parse_plain ?svc ''Japandi'' None
             (app0, (((), []), []))) =
     app0\<lparr>step := Results,
        resultData := Some (Standard plan_value
          [''image: straight on view'', ''image: slightly angled view'',
           ''image: detail focused view''])\<rparr>"
    using t [where JSON_parse = JSON_parse_plain and svc = ?svc and style = "''Japandi''"
        and st = "(((), []), [])" and p = plan_value and ?st1.0 = ?st1 and description = ?d
        and initialImage = None]
      gp d three
    by (auto simp: app0_def)
  have c: "generateFullPlan JSON_parse_plain (plan_and_pictures None pictures) ''Japandi''
      (Some ''image: chosen'') (app0, (((), []), [])) =
     (app0\<lparr>step := Error, errorMessage := ''No text response received from Gemini.''\<rparr>,
      ?st1)"
    using t [where JSON_parse = JSON_parse_plain and svc = "plan_and_pictures None pictures"
        and style = "''Japandi''" and st = "(((), []), [])" and e = no_text_error
        and ?st1.0 = ?st1 and initialImage = "Some ''image: chosen''"]
      fail
    by (simp add: app0_def show_error_def no_text_error_def)
  from a b c show ?thesis by blast
qed

end
